theory Spec2Isabelle
  imports Complex_Main "HOL-Library.Multiset"
begin

section \<open>The time-tracking backend (server.js) as HOL functions\<close>

text \<open>
  The server is an Express application over two MongoDB collections, users and time
  records. Every route handler of the time-record lifecycle is embedded as a function
  that takes the request (the authenticated caller, the parameters, the clock reading)
  and the store, and returns the response together with the store it leaves behind.
  A handler that answers with an error status leaves the store as it was, so the error
  branch carries no store.
\<close>

subsection \<open>JavaScript numbers\<close>

text \<open>
  Timestamps, durations and sums of durations are integers below \<open>2^53\<close> (a Date holds
  at most \<open>8.64 * 10^15\<close> milliseconds, so a duration is at most \<open>1.728 * 10^13\<close>
  seconds). On such numbers the sums, differences, remainders and floors of quotients
  that the server forms are exact, and they are modelled on \<open>int\<close>. \<open>show_int\<close> is the
  decimal rendering that a template literal or a string concatenation gives such a
  number.
\<close>

definition digit_char :: "int \<Rightarrow> char" where
  "digit_char d = (''0123456789'' ! nat d)"

function show_nat :: "int \<Rightarrow> string" where
  "show_nat n =
     (if n < 10 then [digit_char n] else show_nat (n div 10) @ [digit_char (n mod 10)])"
  by pat_completeness auto
termination
  by (relation "measure nat") auto

declare show_nat.simps [simp del]

definition show_int :: "int \<Rightarrow> string" where
  "show_int i = (if i < 0 then CHR ''-'' # show_nat (- i) else show_nat i)"

text \<open>The operator \<open>%\<close>: the remainder takes the sign of the dividend.\<close>

definition js_rem :: "int \<Rightarrow> int \<Rightarrow> int" where
  "js_rem a b = sgn a * (\<bar>a\<bar> mod \<bar>b\<bar>)"

text \<open>
  A quotient is a double. A finite double in the normal range is a rational; \<open>to_double\<close>
  rounds a rational to the nearest one with a 53-bit significand, ties to the even
  significand. Overflow and subnormals do not arise for the quotients the server forms
  (an integer below \<open>2^53\<close> divided by 3600, by a day count, by 40).
\<close>

function bit_length :: "int \<Rightarrow> int" where
  "bit_length n = (if n \<le> 0 then 0 else 1 + bit_length (n div 2))"
  by pat_completeness auto
termination
  by (relation "measure nat") auto

declare bit_length.simps [simp del]

definition pow2 :: "int \<Rightarrow> rat" where
  "pow2 e = (if 0 \<le> e then 2 ^ nat e else 1 / 2 ^ nat (- e))"

definition binary_exponent :: "rat \<Rightarrow> int" where
  "binary_exponent a =
     (let e = bit_length (fst (quotient_of a)) - bit_length (snd (quotient_of a))
      in if pow2 e \<le> a then e else e - 1)"

definition round_half_even :: "rat \<Rightarrow> int" where
  "round_half_even q =
     (let f = \<lfloor>q\<rfloor>; d = q - of_int f
      in if d < 1 / 2 then f else if 1 / 2 < d then f + 1 else if even f then f else f + 1)"

definition to_double :: "rat \<Rightarrow> rat" where
  "to_double q =
     (if q = 0 then 0
      else let u = pow2 (binary_exponent \<bar>q\<bar> - 52)
           in sgn q * of_int (round_half_even (\<bar>q\<bar> / u)) * u)"

definition fdiv :: "rat \<Rightarrow> rat \<Rightarrow> rat" where
  "fdiv x y = to_double (x / y)"

definition fmul :: "rat \<Rightarrow> rat \<Rightarrow> rat" where
  "fmul x y = to_double (x * y)"

text \<open>
  \<open>x.toFixed(1)\<close>: the sign, then the integer \<open>n\<close> nearest to \<open>10 * |x|\<close> (the larger one
  of two), written with a point before its last digit.
\<close>

definition toFixed1 :: "rat \<Rightarrow> string" where
  "toFixed1 x =
     (let n = \<lfloor>10 * \<bar>x\<bar> + 1 / 2\<rfloor>
      in (if x < 0 then ''-'' else '''') @ show_nat (n div 10) @ ''.'' @ show_nat (n mod 10))"

text \<open>\<open>Math.round\<close>: the nearest integer, a tie going up.\<close>

definition math_round :: "rat \<Rightarrow> int" where
  "math_round x = \<lfloor>x + 1 / 2\<rfloor>"

subsection \<open>Utility functions\<close>

definition formatDuration :: "int \<Rightarrow> string" where
  "formatDuration totalSeconds =
     (let hours = totalSeconds div 3600;
          minutes = js_rem totalSeconds 3600 div 60;
          seconds = js_rem totalSeconds 60
      in if hours > 0 then show_int hours @ ''h '' @ show_int minutes @ ''m''
         else if minutes > 0 then show_int minutes @ ''m '' @ show_int seconds @ ''s''
         else show_int seconds @ ''s'')"

subsection \<open>Dates\<close>

text \<open>
  A Date is its number of milliseconds since the epoch. The clock reading of a request is
  \<open>now\<close>: a handler that reads the clock more than once (\<open>new Date()\<close>, \<open>Date.now()\<close>)
  gets the same instant each time. \<open>zone\<close> is the offset of the server's local time from
  UTC in milliseconds, taken as fixed (no daylight-saving change inside a week or a
  month).

  The string \<open>toISOString().split('T')[0]\<close>, the UTC calendar date \<open>YYYY-MM-DD\<close>, is
  represented by the number of that UTC day since the epoch: on the years 0000 to 9999
  two such strings are equal, and ordered as MongoDB orders strings, exactly as their day
  numbers are.
\<close>

record clock =
  now :: int
  zone :: int

definition msPerDay :: int where
  "msPerDay = 86400000"

definition toISODate :: "int \<Rightarrow> int" where
  "toISODate t = t div msPerDay"

definition localDay :: "int \<Rightarrow> int \<Rightarrow> int" where
  "localDay z t = (t + z) div msPerDay"

text \<open>\<open>getDay()\<close>: 0 is Sunday; the first of January 1970 was a Thursday.\<close>

definition getDay :: "int \<Rightarrow> int \<Rightarrow> int" where
  "getDay z t = (localDay z t + 4) mod 7"

text \<open>\<open>getDate()\<close>: the day of the month of the local date, in the Gregorian calendar.\<close>

definition day_of_month :: "int \<Rightarrow> int" where
  "day_of_month days =
     (let d = days + 719468;
          doe = d mod 146097;
          yoe = (doe - doe div 1460 + doe div 36524 - doe div 146096) div 365;
          doy = doe - (365 * yoe + yoe div 4 - yoe div 100);
          mp = (5 * doy + 2) div 153
      in doy - (153 * mp + 2) div 5 + 1)"

definition getDate :: "int \<Rightarrow> int \<Rightarrow> int" where
  "getDate z t = day_of_month (localDay z t)"

text \<open>
  \<open>setDate(d)\<close> moves the local date to day \<open>d\<close> counted from the first of the current
  month, rolling over into the neighbouring months when \<open>d\<close> is out of the month's range,
  and keeps the local time of day. With the fixed offset of \<open>zone\<close> that is a move by whole
  days of the instant; where the offset changes between the two dates (daylight saving)
  the instant moves by an hour more or less, which this function does not follow.
\<close>

definition setDate :: "int \<Rightarrow> int \<Rightarrow> int \<Rightarrow> int" where
  "setDate z t d = t + (d - getDate z t) * msPerDay"

subsection \<open>Schemas\<close>

datatype role = Admin | Employee

record user =
  user_id :: string
  firstName :: string
  lastName :: string
  email :: string
  password :: string
  user_role :: role
  department :: string
  position :: string
  employeeId :: string
  createdAt :: int

record timeRecord =
  rec_id :: string
  userId :: string
  userName :: string
  userEmail :: string
  project :: string
  task :: string
  startTime :: int
  endTime :: "int option"
  duration :: "string option"
  durationSeconds :: "int option"
  isRunning :: bool
  isPaused :: bool
  isManual :: bool
  date :: int
  recordedAt :: int

text \<open>
  A collection is the list of its documents in insertion order; the position of a
  document stands for its \<open>_id\<close>.
\<close>

record store =
  users :: "user list"
  records :: "timeRecord list"

text \<open>The responses other than success, named by the message the handler sends.\<close>

datatype error =
    AccessDenied          \<comment> \<open>403 \<open>Access denied\<close>\<close>
  | TimerAlreadyRunning   \<comment> \<open>400 \<open>Timer already running\<close>\<close>
  | TimerNotFound         \<comment> \<open>404 \<open>Timer not found\<close>\<close>
  | ServerError           \<comment> \<open>500, the \<open>catch\<close> branch\<close>

subsection \<open>Queries on the time records\<close>

datatype date_cond = DateEq int | DateGte int

record query =
  q_id :: "string option"
  q_userId :: "string option"
  q_isRunning :: "bool option"
  q_date :: "date_cond option"
  q_project :: "string option"

definition anything :: query where
  "anything = \<lparr>q_id = None, q_userId = None, q_isRunning = None, q_date = None, q_project = None\<rparr>"

fun date_ok :: "date_cond option \<Rightarrow> int \<Rightarrow> bool" where
  "date_ok None d = True"
| "date_ok (Some (DateEq x)) d = (d = x)"
| "date_ok (Some (DateGte x)) d = (x \<le> d)"

fun field_ok :: "'a option \<Rightarrow> 'a \<Rightarrow> bool" where
  "field_ok None v = True"
| "field_ok (Some x) v = (v = x)"

definition matches :: "query \<Rightarrow> timeRecord \<Rightarrow> bool" where
  "matches q r \<longleftrightarrow>
     field_ok (q_id q) (rec_id r) \<and> field_ok (q_userId q) (userId r) \<and>
     field_ok (q_isRunning q) (isRunning r) \<and> date_ok (q_date q) (date r) \<and>
     field_ok (q_project q) (project r)"

definition find_records :: "query \<Rightarrow> timeRecord list \<Rightarrow> timeRecord list" where
  "find_records q rs = filter (matches q) rs"

definition findOne :: "query \<Rightarrow> timeRecord list \<Rightarrow> timeRecord option" where
  "findOne q rs = List.find (matches q) rs"

definition countDocuments :: "query \<Rightarrow> timeRecord list \<Rightarrow> nat" where
  "countDocuments q rs = length (filter (matches q) rs)"

definition deleteMany :: "query \<Rightarrow> timeRecord list \<Rightarrow> timeRecord list" where
  "deleteMany q rs = filter (\<lambda>r. \<not> matches q r) rs"

text \<open>\<open>sort({ startTime: -1 })\<close>, as a stable sort.\<close>

definition sort_startTime_desc :: "timeRecord list \<Rightarrow> timeRecord list" where
  "sort_startTime_desc rs = sort_key (\<lambda>r. - startTime r) rs"

text \<open>\<open>doc.save()\<close> on a document read by \<open>findOne\<close>: the first match is replaced.\<close>

fun save_found :: "query \<Rightarrow> timeRecord \<Rightarrow> timeRecord list \<Rightarrow> timeRecord list" where
  "save_found q r' [] = []"
| "save_found q r' (r # rs) = (if matches q r then r' # rs else r # save_found q r' rs)"

text \<open>
  \<open>save()\<close> on a new document. The schema rejects it when a required string path is
  missing or empty, and the unique index on \<open>id\<close> rejects a second document with the same
  id; either way \<open>save\<close> throws and the handler answers 500.
\<close>

definition required_ok :: "timeRecord \<Rightarrow> bool" where
  "required_ok r \<longleftrightarrow>
     rec_id r \<noteq> [] \<and> userId r \<noteq> [] \<and> userName r \<noteq> [] \<and> userEmail r \<noteq> [] \<and>
     project r \<noteq> [] \<and> task r \<noteq> []"

definition save_new :: "timeRecord \<Rightarrow> store \<Rightarrow> error + timeRecord \<times> store" where
  "save_new r s =
     (if \<not> required_ok r \<or> rec_id r \<in> set (map rec_id (records s)) then Inl ServerError
      else Inr (r, s\<lparr>records := records s @ [r]\<rparr>))"

text \<open>
  The date filter of both record listings, with the start of the week and of the month
  as every handler computes them (\<open>new Date()\<close>, then \<open>setDate\<close>). A \<open>dateRange\<close> other
  than the three known words adds no condition.
\<close>

definition startOfWeek :: "clock \<Rightarrow> int" where
  "startOfWeek c =
     setDate (zone c) (now c) (getDate (zone c) (now c) - getDay (zone c) (now c) + 1)"

definition startOfMonth :: "clock \<Rightarrow> int" where
  "startOfMonth c = setDate (zone c) (now c) 1"

definition dateRange_cond :: "clock \<Rightarrow> string \<Rightarrow> date_cond option" where
  "dateRange_cond c dateRange =
     (if dateRange = ''today'' then Some (DateEq (toISODate (now c)))
      else if dateRange = ''week'' then Some (DateGte (toISODate (startOfWeek c)))
      else if dateRange = ''month'' then Some (DateGte (toISODate (startOfMonth c)))
      else None)"

text \<open>
  A filter parameter that is absent or empty is the empty string: both are falsy, and
  then, as for the word \<open>all\<close>, the query gets no condition.
\<close>

definition param_cond :: "string \<Rightarrow> string option" where
  "param_cond p = (if p \<noteq> [] \<and> p \<noteq> ''all'' then Some p else None)"

subsection \<open>Admin endpoints\<close>

text \<open>
  \<open>authenticateToken\<close> has put the verified token's payload into \<open>req.user\<close>; the
  handlers read its \<open>id\<close> and its \<open>role\<close>.
\<close>

record caller =
  caller_id :: string
  caller_role :: role

text \<open>\<open>User.findOneAndDelete({ id })\<close>: the first user with that id goes.\<close>

fun findOneAndDelete :: "string \<Rightarrow> user list \<Rightarrow> user list" where
  "findOneAndDelete i [] = []"
| "findOneAndDelete i (u # us) = (if user_id u = i then us else u # findOneAndDelete i us)"

text \<open>DELETE /api/admin/employees/:id\<close>

definition delete_employee :: "caller \<Rightarrow> string \<Rightarrow> store \<Rightarrow> error + store" where
  "delete_employee req_user i s =
     (if caller_role req_user \<noteq> Admin then Inl AccessDenied
      else Inr \<lparr>users = findOneAndDelete i (users s),
                records = deleteMany (anything\<lparr>q_userId := Some i\<rparr>) (records s)\<rparr>)"

text \<open>GET /api/admin/records\<close>

definition admin_query :: "clock \<Rightarrow> string \<Rightarrow> string \<Rightarrow> string \<Rightarrow> query" where
  "admin_query c dateRange employeeId_param project_param =
     anything\<lparr>q_isRunning := Some False,
              q_date := dateRange_cond c dateRange,
              q_userId := param_cond employeeId_param,
              q_project := param_cond project_param\<rparr>"

definition admin_records ::
  "clock \<Rightarrow> caller \<Rightarrow> string \<Rightarrow> string \<Rightarrow> string \<Rightarrow> store \<Rightarrow> error + timeRecord list" where
  "admin_records c req_user dateRange employeeId_param project_param s =
     (if caller_role req_user \<noteq> Admin then Inl AccessDenied
      else Inr (take 100 (sort_startTime_desc
             (find_records (admin_query c dateRange employeeId_param project_param) (records s)))))"

text \<open>
  \<open>reduce((sum, r) => sum + (r.durationSeconds || 0), 0)\<close>: a record without
  \<open>durationSeconds\<close> adds nothing.
\<close>

definition sum_durationSeconds :: "timeRecord list \<Rightarrow> int" where
  "sum_durationSeconds rs =
     foldl (\<lambda>sum r. sum + (case durationSeconds r of None \<Rightarrow> 0 | Some d \<Rightarrow> d)) 0 rs"

definition hours_of :: "timeRecord list \<Rightarrow> rat" where
  "hours_of rs = fdiv (of_int (sum_durationSeconds rs)) 3600"

record admin_stats =
  totalHoursToday :: string
  adm_weeklyTotal :: string
  activeTimersNow :: nat
  adm_daysThisWeek :: nat
  totalTeamMembers :: nat
  activeToday :: nat
  avgHoursPerDay :: string

text \<open>GET /api/admin/dashboard/stats\<close>

definition admin_dashboard_stats :: "clock \<Rightarrow> caller \<Rightarrow> store \<Rightarrow> error + admin_stats" where
  "admin_dashboard_stats c req_user s =
     (if caller_role req_user \<noteq> Admin then Inl AccessDenied
      else let today = toISODate (now c);
               todayRecords = find_records
                 (anything\<lparr>q_date := Some (DateEq today), q_isRunning := Some False\<rparr>) (records s);
               weekRecords = find_records
                 (anything\<lparr>q_date := Some (DateGte (toISODate (startOfWeek c))),
                            q_isRunning := Some False\<rparr>) (records s);
               activeTimers = countDocuments (anything\<lparr>q_isRunning := Some True\<rparr>) (records s);
               totalEmployees = length (filter (\<lambda>u. user_role u = Employee) (users s));
               employeesActiveToday = card (set (map userId todayRecords))
           in Inr \<lparr>totalHoursToday = toFixed1 (hours_of todayRecords),
                   adm_weeklyTotal = toFixed1 (hours_of weekRecords),
                   activeTimersNow = activeTimers,
                   adm_daysThisWeek = card (set (map date weekRecords)),
                   totalTeamMembers = totalEmployees,
                   activeToday = employeesActiveToday,
                   avgHoursPerDay = toFixed1 (fdiv (hours_of weekRecords)
                     (of_nat (max 1 (card (set (map date weekRecords))))))\<rparr>)"

subsection \<open>Employee endpoints\<close>

text \<open>GET /api/employee/records\<close>

definition employee_query :: "clock \<Rightarrow> caller \<Rightarrow> string \<Rightarrow> string \<Rightarrow> query" where
  "employee_query c req_user dateRange project_param =
     anything\<lparr>q_userId := Some (caller_id req_user),
              q_isRunning := Some False,
              q_date := dateRange_cond c dateRange,
              q_project := param_cond project_param\<rparr>"

definition employee_records :: "clock \<Rightarrow> caller \<Rightarrow> string \<Rightarrow> string \<Rightarrow> store \<Rightarrow> timeRecord list" where
  "employee_records c req_user dateRange project_param s =
     sort_startTime_desc
       (find_records (employee_query c req_user dateRange project_param) (records s))"

text \<open>
  POST /api/employee/timer/start. A \<open>project\<close> or \<open>task\<close> that the body lacks is the
  empty string here: the schema rejects a missing and an empty value alike. When no user
  document has the caller's id, reading \<open>user.firstName\<close> throws and the handler
  answers 500. \<open>recordedAt\<close> and \<open>isManual\<close> take the schema's defaults.
\<close>

definition timer_start ::
  "clock \<Rightarrow> caller \<Rightarrow> string \<Rightarrow> string \<Rightarrow> store \<Rightarrow> error + timeRecord \<times> store" where
  "timer_start c req_user project_param task_param s =
     (case findOne (anything\<lparr>q_userId := Some (caller_id req_user), q_isRunning := Some True\<rparr>)
             (records s) of
        Some existingTimer \<Rightarrow> Inl TimerAlreadyRunning
      | None \<Rightarrow>
         (case List.find (\<lambda>u. user_id u = caller_id req_user) (users s) of
            None \<Rightarrow> Inl ServerError
          | Some u \<Rightarrow>
              save_new
                \<lparr>rec_id = ''timer_'' @ show_int (now c),
                 userId = caller_id req_user,
                 userName = firstName u @ '' '' @ lastName u,
                 userEmail = email u,
                 project = project_param,
                 task = task_param,
                 startTime = now c,
                 endTime = None,
                 duration = None,
                 durationSeconds = None,
                 isRunning = True,
                 isPaused = False,
                 isManual = False,
                 date = toISODate (now c),
                 recordedAt = now c\<rparr> s))"

text \<open>
  The query \<open>{ id, userId: req.user.id }\<close> by which the stop and the pause handler look
  the timer up.
\<close>

definition own_timer_query :: "caller \<Rightarrow> string \<Rightarrow> query" where
  "own_timer_query req_user i = anything\<lparr>q_id := Some i, q_userId := Some (caller_id req_user)\<rparr>"

text \<open>POST /api/employee/timer/stop/:id: what the handler assigns to the timer it found.\<close>

definition stop_assign :: "clock \<Rightarrow> timeRecord \<Rightarrow> timeRecord" where
  "stop_assign c timer =
     (let endTime' = now c;
          durationSeconds' = (endTime' - startTime timer) div 1000
      in timer\<lparr>endTime := Some endTime',
               duration := Some (formatDuration durationSeconds'),
               durationSeconds := Some durationSeconds',
               isRunning := False\<rparr>)"

definition timer_stop :: "clock \<Rightarrow> caller \<Rightarrow> string \<Rightarrow> store \<Rightarrow> error + timeRecord \<times> store" where
  "timer_stop c req_user i s =
     (case findOne (own_timer_query req_user i) (records s) of
        None \<Rightarrow> Inl TimerNotFound
      | Some timer \<Rightarrow>
          Inr (stop_assign c timer,
               s\<lparr>records := save_found (own_timer_query req_user i) (stop_assign c timer) (records s)\<rparr>))"

text \<open>POST /api/employee/timer/pause/:id, with \<open>action\<close> from the body.\<close>

definition pause_assign :: "string \<Rightarrow> timeRecord \<Rightarrow> timeRecord" where
  "pause_assign action timer =
     (if action = ''pause'' then timer\<lparr>isPaused := True\<rparr>
      else if action = ''resume'' then timer\<lparr>isPaused := False\<rparr>
      else timer)"

definition timer_pause :: "caller \<Rightarrow> string \<Rightarrow> string \<Rightarrow> store \<Rightarrow> error + timeRecord \<times> store" where
  "timer_pause req_user i action s =
     (case findOne (own_timer_query req_user i) (records s) of
        None \<Rightarrow> Inl TimerNotFound
      | Some timer \<Rightarrow>
          Inr (pause_assign action timer,
               s\<lparr>records := save_found (own_timer_query req_user i) (pause_assign action timer) (records s)\<rparr>))"

text \<open>
  POST /api/employee/records/manual. \<open>startTime\<close> and \<open>endTime\<close> are what \<open>new Date\<close>
  makes of the body's values: \<open>None\<close> is an invalid Date. With an invalid start
  \<open>toISOString\<close> throws, with an invalid end the schema rejects the document; both
  answer 500.
\<close>

definition records_manual ::
  "clock \<Rightarrow> caller \<Rightarrow> string \<Rightarrow> string \<Rightarrow> int option \<Rightarrow> int option \<Rightarrow> store
     \<Rightarrow> error + timeRecord \<times> store" where
  "records_manual c req_user project_param task_param startTime_param endTime_param s =
     (case List.find (\<lambda>u. user_id u = caller_id req_user) (users s) of
        None \<Rightarrow> Inl ServerError
      | Some u \<Rightarrow>
         (case (startTime_param, endTime_param) of
            (Some startTime', Some endTime') \<Rightarrow>
              let durationSeconds' = (endTime' - startTime') div 1000
              in save_new
                   \<lparr>rec_id = ''manual_'' @ show_int (now c),
                    userId = caller_id req_user,
                    userName = firstName u @ '' '' @ lastName u,
                    userEmail = email u,
                    project = project_param,
                    task = task_param,
                    startTime = startTime',
                    endTime = Some endTime',
                    duration = Some (formatDuration durationSeconds'),
                    durationSeconds = Some durationSeconds',
                    isRunning = False,
                    isPaused = False,
                    isManual = True,
                    date = toISODate startTime',
                    recordedAt = now c\<rparr> s
          | _ \<Rightarrow> Inl ServerError))"

definition calculateProductivityScore :: "timeRecord list \<Rightarrow> int" where
  "calculateProductivityScore weekRecords =
     (let totalHours = hours_of weekRecords;
          targetHours = 40;
          score = min (fmul (fdiv totalHours targetHours) 100) 100
      in math_round score)"

record employee_stats =
  todayHours :: string
  todaySessions :: nat
  emp_weeklyTotal :: string
  emp_daysThisWeek :: nat
  currentStatus :: string
  statusDetail :: string
  productivityScore :: int

text \<open>GET /api/employee/dashboard/stats\<close>

definition employee_dashboard_stats :: "clock \<Rightarrow> caller \<Rightarrow> store \<Rightarrow> employee_stats" where
  "employee_dashboard_stats c req_user s =
     (let today = toISODate (now c);
          todayRecords = find_records
            (anything\<lparr>q_userId := Some (caller_id req_user), q_date := Some (DateEq today),
                       q_isRunning := Some False\<rparr>) (records s);
          weekRecords = find_records
            (anything\<lparr>q_userId := Some (caller_id req_user),
                       q_date := Some (DateGte (toISODate (startOfWeek c))),
                       q_isRunning := Some False\<rparr>) (records s);
          activeTimer = findOne
            (anything\<lparr>q_userId := Some (caller_id req_user), q_isRunning := Some True\<rparr>) (records s)
      in \<lparr>todayHours = toFixed1 (hours_of todayRecords),
          todaySessions = length todayRecords,
          emp_weeklyTotal = toFixed1 (hours_of weekRecords),
          emp_daysThisWeek = card (set (map date weekRecords)),
          currentStatus = (case activeTimer of
              Some t \<Rightarrow> (if isPaused t then ''Paused'' else ''Working'')
            | None \<Rightarrow> ''Not Working''),
          statusDetail = (case activeTimer of
              Some t \<Rightarrow> ''On: '' @ task t
            | None \<Rightarrow> ''Ready to start tracking''),
          productivityScore = calculateProductivityScore weekRecords\<rparr>)"

subsection \<open>Requests in sequence\<close>

text \<open>
  The requests that write to the store. A request that is answered with an error leaves
  the store as it is; \<open>run\<close> serves a list of requests one after the other.
\<close>

datatype request =
    Start clock caller string string
  | Stop clock caller string
  | Pause caller string string
  | Manual clock caller string string "int option" "int option"
  | DeleteEmployee caller string

fun new_store :: "store \<Rightarrow> error + timeRecord \<times> store \<Rightarrow> store" where
  "new_store s (Inl e) = s"
| "new_store s (Inr (r, s')) = s'"

fun handle :: "request \<Rightarrow> store \<Rightarrow> store" where
  "handle (Start c u p t) s = new_store s (timer_start c u p t s)"
| "handle (Stop c u i) s = new_store s (timer_stop c u i s)"
| "handle (Pause u i a) s = new_store s (timer_pause u i a s)"
| "handle (Manual c u p t st en) s = new_store s (records_manual c u p t st en s)"
| "handle (DeleteEmployee u i) s =
     (case delete_employee u i s of Inl e \<Rightarrow> s | Inr s' \<Rightarrow> s')"

definition run :: "request list \<Rightarrow> store \<Rightarrow> store" where
  "run reqs s = fold handle reqs s"

subsection \<open>The vocabulary of the specification\<close>

text \<open>
  The state of a record, read off its flags the way the employee dashboard derives
  \<open>currentStatus\<close>: a record that is not running is stopped, whatever \<open>isPaused\<close> says.
\<close>

datatype timer_state = Running | Paused | Stopped

definition state_of :: "timeRecord \<Rightarrow> timer_state" where
  "state_of r = (if isRunning r then (if isPaused r then Paused else Running) else Stopped)"

definition has_active :: "string \<Rightarrow> store \<Rightarrow> bool" where
  "has_active uid s \<longleftrightarrow>
     (\<exists>r \<in> set (records s). userId r = uid \<and> (state_of r = Running \<or> state_of r = Paused))"

definition running_of :: "string \<Rightarrow> store \<Rightarrow> timeRecord list" where
  "running_of uid s = filter (\<lambda>r. userId r = uid \<and> isRunning r) (records s)"

definition own_records :: "string \<Rightarrow> store \<Rightarrow> timeRecord list" where
  "own_records uid s = filter (\<lambda>r. userId r = uid) (records s)"

definition others_records :: "string \<Rightarrow> store \<Rightarrow> timeRecord list" where
  "others_records uid s = filter (\<lambda>r. userId r \<noteq> uid) (records s)"

definition closed_records :: "store \<Rightarrow> timeRecord list" where
  "closed_records s = filter (\<lambda>r. \<not> isRunning r) (records s)"

text \<open>The invariants of the data model, on one record and on the store.\<close>

definition paused_is_running :: "timeRecord \<Rightarrow> bool" where
  "paused_is_running r \<longleftrightarrow> (isPaused r \<longrightarrow> isRunning r)"

definition closing_fields_together :: "timeRecord \<Rightarrow> bool" where
  "closing_fields_together r \<longleftrightarrow>
     (endTime r = None \<and> duration r = None \<and> durationSeconds r = None) \<or>
     (endTime r \<noteq> None \<and> duration r \<noteq> None \<and> durationSeconds r \<noteq> None)"

definition running_is_open :: "timeRecord \<Rightarrow> bool" where
  "running_is_open r \<longleftrightarrow>
     (isRunning r \<longrightarrow> endTime r = None \<and> duration r = None \<and> durationSeconds r = None)"

definition closing_ok :: "timeRecord \<Rightarrow> bool" where
  "closing_ok r \<longleftrightarrow> running_is_open r \<and> closing_fields_together r"

text \<open>
  The calendar date of the specification is the server-local one: the day, counted from
  the epoch, that the instant falls on in the server's zone. It is the UTC day that
  \<open>toISODate\<close> gives when the zone is UTC, and can be the day before or after it
  otherwise.
\<close>

definition spec_calendar_date :: "clock \<Rightarrow> int \<Rightarrow> int" where
  "spec_calendar_date c t = localDay (zone c) t"

text \<open>
  The week of the specification starts on Monday: the weekday index counted from
  Monday is 0 on Monday and 6 on Sunday, and the week starts that many days before
  today, the server-local calendar date of now.
\<close>

definition weekday_index_from_monday :: "clock \<Rightarrow> int" where
  "weekday_index_from_monday c = (getDay (zone c) (now c) + 6) mod 7"

definition spec_startOfWeek_date :: "clock \<Rightarrow> int" where
  "spec_startOfWeek_date c = spec_calendar_date c (now c) - weekday_index_from_monday c"

text \<open>
  The three buckets of the duration format, of a number of seconds and of a rendered
  string (the unit letters it holds).
\<close>

datatype bucket = HoursMinutes | MinutesSeconds | SecondsOnly

definition bucket_of_seconds :: "int \<Rightarrow> bucket" where
  "bucket_of_seconds s =
     (if 3600 \<le> s then HoursMinutes else if 60 \<le> s then MinutesSeconds else SecondsOnly)"

definition parse_bucket :: "string \<Rightarrow> bucket" where
  "parse_bucket str =
     (if CHR ''h'' \<in> set str then HoursMinutes
      else if CHR ''m'' \<in> set str then MinutesSeconds else SecondsOnly)"

subsection \<open>A small team and a week of requests\<close>

text \<open>
  The data of the worked examples: the seeded admin and two employees on a server whose
  local time is UTC, and the first week of January 2024 (the 1st is a Monday, day 19723
  since the epoch).
\<close>

definition admin_user :: user where
  "admin_user = \<lparr>user_id = ''admin_001'', firstName = ''Admin'', lastName = ''User'',
     email = ''admin@codeexanalytics.com'', password = ''admin123'', user_role = Admin,
     department = ''Administration'', position = ''System Administrator'',
     employeeId = ''ADM001'', createdAt = 0\<rparr>"

definition alice :: user where
  "alice = \<lparr>user_id = ''emp_1'', firstName = ''Alice'', lastName = ''Ng'',
     email = ''alice@example.com'', password = ''a'', user_role = Employee,
     department = ''General'', position = [], employeeId = ''EMP001'', createdAt = 1\<rparr>"

definition bob :: user where
  "bob = \<lparr>user_id = ''emp_2'', firstName = ''Bob'', lastName = ''Ode'',
     email = ''bob@example.com'', password = ''b'', user_role = Employee,
     department = ''General'', position = [], employeeId = ''EMP002'', createdAt = 2\<rparr>"

definition as_admin :: caller where
  "as_admin = \<lparr>caller_id = ''admin_001'', caller_role = Admin\<rparr>"

definition as_alice :: caller where
  "as_alice = \<lparr>caller_id = ''emp_1'', caller_role = Employee\<rparr>"

definition as_bob :: caller where
  "as_bob = \<lparr>caller_id = ''emp_2'', caller_role = Employee\<rparr>"

definition team :: store where
  "team = \<lparr>users = [admin_user, alice, bob], records = []\<rparr>"

definition utc :: "int \<Rightarrow> clock" where
  "utc t = \<lparr>now = t, zone = 0\<rparr>"

text \<open>Nine and ten o'clock on Monday, Wednesday and Friday; noon on Saturday and Sunday.\<close>

definition mon9 :: int where
  "mon9 = 1704099600000"

definition mon10 :: int where
  "mon10 = 1704103200000"

definition wed9 :: int where
  "wed9 = 1704272400000"

definition wed10 :: int where
  "wed10 = 1704276000000"

definition fri9 :: int where
  "fri9 = 1704445200000"

definition fri10 :: int where
  "fri10 = 1704448800000"

definition sat12 :: int where
  "sat12 = 1704542400000"

definition sun12 :: int where
  "sun12 = 1704628800000"

text \<open>
  A server nine hours ahead of UTC, and one o'clock at night there on Wednesday the 3rd,
  which is four in the afternoon of Tuesday the 2nd in UTC.
\<close>

definition jst :: "int \<Rightarrow> clock" where
  "jst t = \<lparr>now = t, zone = 32400000\<rparr>"

definition wed1_jst :: int where
  "wed1_jst = 1704211200000"

text \<open>Alice enters one hour of work on each of the three days, right after the hour.\<close>

definition week_requests :: "request list" where
  "week_requests =
     [Manual (utc mon10) as_alice ''Apollo'' ''design'' (Some mon9) (Some mon10),
      Manual (utc wed10) as_alice ''Apollo'' ''build'' (Some wed9) (Some wed10),
      Manual (utc fri10) as_alice ''Apollo'' ''test'' (Some fri9) (Some fri10)]"

definition week_store :: store where
  "week_store = run week_requests team"

text \<open>The same week, with a timer of Bob running since Saturday noon.\<close>

definition busy_store :: store where
  "busy_store = handle (Start (utc sat12) as_bob ''Hermes'' ''review'') week_store"

text \<open>Alice's timer, started on Monday at nine.\<close>

definition started_store :: store where
  "started_store = handle (Start (utc mon9) as_alice ''Apollo'' ''design'') team"

text \<open>
  A store with 101 closed records of Alice, started one millisecond after the other.
\<close>

definition crowded_store :: store where
  "crowded_store =
     \<lparr>users = [admin_user, alice],
      records = map (\<lambda>k. (hd (records week_store))\<lparr>rec_id := ''manual_'' @ show_int k,
                                                    startTime := k\<rparr>) [1..101]\<rparr>"

section \<open>Proofs\<close>

subsection \<open>Rendering of numbers and durations\<close>

lemma digit_char_digit: "d < 10 \<Longrightarrow> digit_char d \<in> set ''0123456789''"
  unfolding digit_char_def by (rule nth_mem) simp

lemma set_show_nat: "set (show_nat n) \<subseteq> set ''0123456789''"
proof (induction n rule: show_nat.induct)
  case (1 n)
  show ?case
  proof (cases "n < 10")
    case True
    then show ?thesis
      using digit_char_digit [of n] by (subst show_nat.simps) simp
  next
    case False
    have "digit_char (n mod 10) \<in> set ''0123456789''"
      by (rule digit_char_digit) simp
    with False 1 show ?thesis
      by (subst show_nat.simps) simp
  qed
qed

lemma no_unit_in_show_int: "CHR ''h'' \<notin> set (show_int i)" "CHR ''m'' \<notin> set (show_int i)"
  using set_show_nat [of i] set_show_nat [of "- i"] by (auto simp: show_int_def)

lemma js_rem_nonneg: "0 \<le> a \<Longrightarrow> 0 < b \<Longrightarrow> js_rem a b = a mod b"
  by (simp add: js_rem_def sgn_if)

lemma formatDuration_nonneg:
  assumes "0 \<le> s"
  shows "formatDuration s =
    (if 3600 \<le> s then show_int (s div 3600) @ ''h '' @ show_int (s mod 3600 div 60) @ ''m''
     else if 60 \<le> s then show_int (s div 60) @ ''m '' @ show_int (s mod 60) @ ''s''
     else show_int s @ ''s'')"
proof -
  have r: "js_rem s 3600 = s mod 3600" "js_rem s 60 = s mod 60"
    using assms by (simp_all add: js_rem_nonneg)
  have h: "(0 < s div 3600) = (3600 \<le> s)" and m: "(0 < s div 60) = (60 \<le> s)"
    using assms by (simp_all add: pos_imp_zdiv_pos_iff)
  show ?thesis
  proof (cases "3600 \<le> s")
    case True
    then show ?thesis using h by (simp add: formatDuration_def r Let_def)
  next
    case False
    then have "s mod 3600 = s" using assms by simp
    moreover have "\<not> 60 \<le> s \<Longrightarrow> s mod 60 = s" using assms by simp
    ultimately show ?thesis using False h m by (simp add: formatDuration_def r Let_def)
  qed
qed

subsection \<open>Queries\<close>

lemma mem_find_records: "r \<in> set (find_records q rs) \<longleftrightarrow> r \<in> set rs \<and> matches q r"
  by (simp add: find_records_def)

lemma matches_userId: "q_userId q = Some u \<Longrightarrow> matches q r \<Longrightarrow> userId r = u"
  by (simp add: matches_def)

lemma matches_isRunning: "q_isRunning q = Some b \<Longrightarrow> matches q r \<Longrightarrow> isRunning r = b"
  by (simp add: matches_def)

lemma filter_narrow:
  "(\<And>x. P x \<Longrightarrow> Q x) \<Longrightarrow> filter P (filter Q xs) = filter P xs"
  by (induction xs) auto

lemma find_narrow:
  "(\<And>x. P x \<Longrightarrow> Q x) \<Longrightarrow> List.find P (filter Q xs) = List.find P xs"
  by (induction xs) auto

lemma find_records_own:
  "q_userId q = Some u \<Longrightarrow> find_records q (own_records u s) = find_records q (records s)"
  unfolding find_records_def own_records_def
  by (rule filter_narrow) (simp add: matches_userId)

lemma findOne_own:
  "q_userId q = Some u \<Longrightarrow> findOne q (own_records u s) = findOne q (records s)"
  unfolding findOne_def own_records_def
  by (rule find_narrow) (simp add: matches_userId)

lemma find_records_closed:
  "q_isRunning q = Some False \<Longrightarrow> find_records q (closed_records s) = find_records q (records s)"
  unfolding find_records_def closed_records_def
  by (rule filter_narrow) (auto dest: matches_isRunning)

lemma findOne_Some: "findOne q rs = Some r \<Longrightarrow> r \<in> set rs \<and> matches q r"
  unfolding findOne_def by (induction rs) (auto split: if_splits)

lemma findOne_None: "findOne q rs = None \<longleftrightarrow> (\<forall>r \<in> set rs. \<not> matches q r)"
  unfolding findOne_def by (auto simp: find_None_iff)

subsection \<open>Sorting\<close>

lemma sorted_sort_startTime_desc:
  "sorted_wrt (\<lambda>x y. startTime y \<le> startTime x) (sort_startTime_desc rs)"
proof -
  have "sorted (map (\<lambda>r. - startTime r) (sort_key (\<lambda>r. - startTime r) rs))"
    by (rule sorted_sort_key)
  then show ?thesis
    by (simp add: sort_startTime_desc_def sorted_map)
qed

lemma mset_sort_startTime_desc: "mset (sort_startTime_desc rs) = mset rs"
  by (simp add: sort_startTime_desc_def)

lemma set_sort_startTime_desc: "set (sort_startTime_desc rs) = set rs"
  by (simp add: sort_startTime_desc_def)

lemma length_sort_startTime_desc: "length (sort_startTime_desc rs) = length rs"
  by (simp add: sort_startTime_desc_def)

subsection \<open>The newest first\<close>

lemma sorted_desc_take_drop:
  assumes "sorted_wrt (\<lambda>x y. startTime y \<le> startTime x) xs"
  shows "\<forall>x \<in> set (drop n xs). \<forall>y \<in> set (take n xs). startTime x \<le> startTime y"
proof -
  from assms have "sorted_wrt (\<lambda>x y. startTime y \<le> startTime x) (take n xs @ drop n xs)"
    by simp
  then show ?thesis
    unfolding sorted_wrt_append by blast
qed

lemma mset_take_sorted:
  "mset (take n (sort_startTime_desc m)) + mset (drop n (sort_startTime_desc m)) = mset m"
proof -
  let ?xs = "sort_startTime_desc m"
  have "mset (take n ?xs) + mset (drop n ?xs) = mset (take n ?xs @ drop n ?xs)"
    by (simp only: mset_append)
  also have "\<dots> = mset ?xs"
    by (simp only: append_take_drop_id)
  also have "\<dots> = mset m"
    by (rule mset_sort_startTime_desc)
  finally show ?thesis .
qed

lemma newest_first:
  "mset (take n (sort_startTime_desc m)) \<subseteq># mset m"
  "\<forall>x \<in># mset m - mset (take n (sort_startTime_desc m)).
     \<forall>y \<in> set (take n (sort_startTime_desc m)). startTime x \<le> startTime y"
proof -
  let ?rs = "take n (sort_startTime_desc m)"
  have sum: "mset ?rs + mset (drop n (sort_startTime_desc m)) = mset m"
    by (rule mset_take_sorted)
  then show "mset ?rs \<subseteq># mset m"
    by (metis mset_subset_eq_add_left)
  from sum have "mset m - mset ?rs = mset (drop n (sort_startTime_desc m))"
    by (metis add_diff_cancel_left')
  then show "\<forall>x \<in># mset m - mset ?rs. \<forall>y \<in> set ?rs. startTime x \<le> startTime y"
    using sorted_desc_take_drop [OF sorted_sort_startTime_desc, of n m]
    by simp
qed

subsection \<open>Deleting\<close>

lemma findOneAndDelete_others:
  "filter (\<lambda>u. user_id u \<noteq> i) (findOneAndDelete i us) = filter (\<lambda>u. user_id u \<noteq> i) us"
  by (induction us) auto

lemma findOneAndDelete_distinct:
  "distinct (map user_id us) \<Longrightarrow> findOneAndDelete i us = filter (\<lambda>u. user_id u \<noteq> i) us"
proof (induction us)
  case Nil
  then show ?case by simp
next
  case (Cons u us)
  show ?case
  proof (cases "user_id u = i")
    case True
    with Cons.prems have "i \<notin> user_id ` set us" by simp
    then have "\<forall>v \<in> set us. user_id v \<noteq> i" by blast
    then have "filter (\<lambda>u. user_id u \<noteq> i) us = us" by (simp add: filter_id_conv)
    with True show ?thesis by simp
  next
    case False
    with Cons show ?thesis by simp
  qed
qed

lemma deleteMany_userId:
  "deleteMany (anything\<lparr>q_userId := Some i\<rparr>) rs = filter (\<lambda>r. userId r \<noteq> i) rs"
  by (simp add: deleteMany_def matches_def anything_def)

subsection \<open>Saving a found document\<close>

lemma save_found_others:
  assumes "\<And>r. matches q r \<Longrightarrow> userId r = uid" and "userId t = uid"
  shows "filter (\<lambda>r. userId r \<noteq> uid) (save_found q t rs) = filter (\<lambda>r. userId r \<noteq> uid) rs"
  using assms by (induction rs) auto

lemma save_found_own:
  assumes "\<And>r. matches q r \<Longrightarrow> userId r = uid" and "userId t = uid"
  shows "filter (\<lambda>r. userId r = uid) (save_found q t rs) =
         save_found q t (filter (\<lambda>r. userId r = uid) rs)"
  using assms by (induction rs) auto

lemma own_timer_query_userId [simp]: "q_userId (own_timer_query u i) = Some (caller_id u)"
  by (simp add: own_timer_query_def)

lemma matches_own_timer_query:
  "matches (own_timer_query u i) r \<longleftrightarrow> rec_id r = i \<and> userId r = caller_id u"
  by (simp add: own_timer_query_def matches_def anything_def)

lemma userId_stop_assign [simp]: "userId (stop_assign c t) = userId t"
  by (simp add: stop_assign_def Let_def)

lemma userId_pause_assign [simp]: "userId (pause_assign a t) = userId t"
  by (simp add: pause_assign_def)

lemma employee_query_fields [simp]:
  "q_userId (employee_query c u dr p) = Some (caller_id u)"
  "q_isRunning (employee_query c u dr p) = Some False"
  by (simp_all add: employee_query_def)

lemma admin_query_isRunning [simp]: "q_isRunning (admin_query c dr e p) = Some False"
  by (simp add: admin_query_def)

lemma find_records_closed_eq:
  "closed_records s = closed_records s' \<Longrightarrow> q_isRunning q = Some False \<Longrightarrow>
   find_records q (records s) = find_records q (records s')"
  using find_records_closed [of q s] find_records_closed [of q s'] by simp

lemma find_records_own_eq:
  "own_records u s = own_records u s' \<Longrightarrow> q_userId q = Some u \<Longrightarrow>
   find_records q (records s) = find_records q (records s')"
  using find_records_own [of q u s] find_records_own [of q u s'] by simp

lemma findOne_own_eq:
  "own_records u s = own_records u s' \<Longrightarrow> q_userId q = Some u \<Longrightarrow>
   findOne q (records s) = findOne q (records s')"
  using findOne_own [of q u s] findOne_own [of q u s'] by simp

subsection \<open>Closed records decide the totals\<close>

lemma admin_stats_closed:
  assumes "closed_records s = closed_records s'"
    and "admin_dashboard_stats c a s = Inr st" and "admin_dashboard_stats c a s' = Inr st'"
  shows "totalHoursToday st = totalHoursToday st' \<and> adm_weeklyTotal st = adm_weeklyTotal st' \<and>
         avgHoursPerDay st = avgHoursPerDay st' \<and> adm_daysThisWeek st = adm_daysThisWeek st' \<and>
         activeToday st = activeToday st'"
proof -
  let ?qt = "anything\<lparr>q_date := Some (DateEq (toISODate (now c))), q_isRunning := Some False\<rparr>"
  let ?qw = "anything\<lparr>q_date := Some (DateGte (toISODate (startOfWeek c))),
                       q_isRunning := Some False\<rparr>"
  have t: "find_records ?qt (records s) = find_records ?qt (records s')"
    and w: "find_records ?qw (records s) = find_records ?qw (records s')"
    using assms(1) by (rule find_records_closed_eq, simp)+
  from assms(2,3) show ?thesis
    by (auto simp: admin_dashboard_stats_def Let_def t w split: if_splits)
qed

lemma employee_stats_closed:
  assumes "closed_records s = closed_records s'"
  shows "todayHours (employee_dashboard_stats c u s) = todayHours (employee_dashboard_stats c u s') \<and>
         todaySessions (employee_dashboard_stats c u s) = todaySessions (employee_dashboard_stats c u s') \<and>
         emp_weeklyTotal (employee_dashboard_stats c u s) = emp_weeklyTotal (employee_dashboard_stats c u s') \<and>
         emp_daysThisWeek (employee_dashboard_stats c u s) = emp_daysThisWeek (employee_dashboard_stats c u s') \<and>
         productivityScore (employee_dashboard_stats c u s) = productivityScore (employee_dashboard_stats c u s')"
proof -
  let ?qt = "anything\<lparr>q_userId := Some (caller_id u), q_date := Some (DateEq (toISODate (now c))),
                       q_isRunning := Some False\<rparr>"
  let ?qw = "anything\<lparr>q_userId := Some (caller_id u),
                       q_date := Some (DateGte (toISODate (startOfWeek c))),
                       q_isRunning := Some False\<rparr>"
  have t: "find_records ?qt (records s) = find_records ?qt (records s')"
    and w: "find_records ?qw (records s) = find_records ?qw (records s')"
    using assms by (rule find_records_closed_eq, simp)+
  show ?thesis
    by (simp add: employee_dashboard_stats_def Let_def t w)
qed

subsection \<open>The records of the caller decide the employee endpoints\<close>

lemma found_is_own:
  "findOne (own_timer_query u i) rs = Some t \<Longrightarrow> userId t = caller_id u \<and> rec_id t = i"
  by (auto dest: findOne_Some simp: matches_own_timer_query)

lemma own_records_save_found:
  "userId t = caller_id u \<Longrightarrow>
   own_records (caller_id u) (s\<lparr>records := save_found (own_timer_query u i) t (records s)\<rparr>) =
   save_found (own_timer_query u i) t (own_records (caller_id u) s)"
  unfolding own_records_def
  using save_found_own [of "own_timer_query u i" "caller_id u" t "records s"]
  by (simp add: matches_own_timer_query)

lemma others_records_save_found:
  "userId t = caller_id u \<Longrightarrow>
   others_records (caller_id u) (s\<lparr>records := save_found (own_timer_query u i) t (records s)\<rparr>) =
   others_records (caller_id u) s"
  unfolding others_records_def
  using save_found_others [of "own_timer_query u i" "caller_id u" t "records s"]
  by (simp add: matches_own_timer_query)

lemma timer_stop_own:
  assumes "own_records (caller_id u) s = own_records (caller_id u) s'"
  shows "map_sum id fst (timer_stop c u i s) = map_sum id fst (timer_stop c u i s')"
    and "own_records (caller_id u) (handle (Stop c u i) s) =
         own_records (caller_id u) (handle (Stop c u i) s')"
proof -
  have f: "findOne (own_timer_query u i) (records s) = findOne (own_timer_query u i) (records s')"
    using assms by (rule findOne_own_eq) simp
  show "map_sum id fst (timer_stop c u i s) = map_sum id fst (timer_stop c u i s')"
    by (simp add: timer_stop_def f split: option.splits)
  show "own_records (caller_id u) (handle (Stop c u i) s) =
         own_records (caller_id u) (handle (Stop c u i) s')"
  proof (cases "findOne (own_timer_query u i) (records s')")
    case None
    with f assms show ?thesis by (simp add: timer_stop_def)
  next
    case (Some t)
    then have "userId (stop_assign c t) = caller_id u" by (simp add: found_is_own)
    with Some f assms show ?thesis
      by (simp add: timer_stop_def own_records_save_found)
  qed
qed

lemma timer_pause_own:
  assumes "own_records (caller_id u) s = own_records (caller_id u) s'"
  shows "map_sum id fst (timer_pause u i a s) = map_sum id fst (timer_pause u i a s')"
    and "own_records (caller_id u) (handle (Pause u i a) s) =
         own_records (caller_id u) (handle (Pause u i a) s')"
proof -
  have f: "findOne (own_timer_query u i) (records s) = findOne (own_timer_query u i) (records s')"
    using assms by (rule findOne_own_eq) simp
  show "map_sum id fst (timer_pause u i a s) = map_sum id fst (timer_pause u i a s')"
    by (simp add: timer_pause_def f split: option.splits)
  show "own_records (caller_id u) (handle (Pause u i a) s) =
         own_records (caller_id u) (handle (Pause u i a) s')"
  proof (cases "findOne (own_timer_query u i) (records s')")
    case None
    with f assms show ?thesis by (simp add: timer_pause_def)
  next
    case (Some t)
    then have "userId (pause_assign a t) = caller_id u" by (simp add: found_is_own)
    with Some f assms show ?thesis
      by (simp add: timer_pause_def own_records_save_found)
  qed
qed

lemma timer_stop_frame:
  assumes "timer_stop c u i s = Inr (r, s2)"
  shows "userId r = caller_id u \<and> rec_id r = i \<and>
         others_records (caller_id u) s2 = others_records (caller_id u) s \<and> users s2 = users s"
proof (cases "findOne (own_timer_query u i) (records s)")
  case None
  with assms show ?thesis by (simp add: timer_stop_def)
next
  case (Some t)
  then have t: "userId t = caller_id u" "rec_id t = i" by (simp_all add: found_is_own)
  then have "userId (stop_assign c t) = caller_id u" by simp
  from others_records_save_found [OF this] Some assms t show ?thesis
    by (auto simp: timer_stop_def stop_assign_def Let_def)
qed

lemma timer_pause_frame:
  assumes "timer_pause u i a s = Inr (r, s2)"
  shows "userId r = caller_id u \<and> rec_id r = i \<and>
         others_records (caller_id u) s2 = others_records (caller_id u) s \<and> users s2 = users s"
proof (cases "findOne (own_timer_query u i) (records s)")
  case None
  with assms show ?thesis by (simp add: timer_pause_def)
next
  case (Some t)
  then have t: "userId t = caller_id u" "rec_id t = i" by (simp_all add: found_is_own)
  then have "userId (pause_assign a t) = caller_id u" by simp
  from others_records_save_found [OF this] Some assms t show ?thesis
    by (auto simp: timer_pause_def pause_assign_def)
qed

lemma not_own_not_found:
  assumes "\<forall>r \<in> set (records s). rec_id r = i \<longrightarrow> userId r \<noteq> caller_id u"
  shows "timer_stop c u i s = Inl TimerNotFound" "timer_pause u i a s = Inl TimerNotFound"
proof -
  have "findOne (own_timer_query u i) (records s) = None"
    using assms by (auto simp: findOne_None matches_own_timer_query)
  then show "timer_stop c u i s = Inl TimerNotFound" "timer_pause u i a s = Inl TimerNotFound"
    by (simp_all add: timer_stop_def timer_pause_def)
qed

lemma employee_stats_own:
  assumes "own_records (caller_id u) s = own_records (caller_id u) s'"
  shows "employee_dashboard_stats c u s = employee_dashboard_stats c u s'"
proof -
  let ?qt = "anything\<lparr>q_userId := Some (caller_id u), q_date := Some (DateEq (toISODate (now c))),
                       q_isRunning := Some False\<rparr>"
  let ?qw = "anything\<lparr>q_userId := Some (caller_id u),
                       q_date := Some (DateGte (toISODate (startOfWeek c))),
                       q_isRunning := Some False\<rparr>"
  let ?qa = "anything\<lparr>q_userId := Some (caller_id u), q_isRunning := Some True\<rparr>"
  have t: "find_records ?qt (records s) = find_records ?qt (records s')"
    and w: "find_records ?qw (records s) = find_records ?qw (records s')"
    using assms by (rule find_records_own_eq, simp)+
  have a: "findOne ?qa (records s) = findOne ?qa (records s')"
    using assms by (rule findOne_own_eq) simp
  show ?thesis
    by (simp add: employee_dashboard_stats_def Let_def t w a)
qed

subsection \<open>The week\<close>

lemma toISODate_add_days: "toISODate (t + k * msPerDay) = toISODate t + k"
  by (simp add: toISODate_def msPerDay_def)

lemma startOfWeek_date:
  "toISODate (startOfWeek c) = toISODate (now c) + 1 - getDay (zone c) (now c)"
  by (simp add: startOfWeek_def setDate_def toISODate_add_days)

lemma getDay_range: "0 \<le> getDay z t \<and> getDay z t < 7"
  by (simp add: getDay_def)

lemma startOfWeek_monday_to_saturday:
  assumes "getDay (zone c) (now c) \<noteq> 0"
    and "toISODate (now c) = spec_calendar_date c (now c)"
  shows "toISODate (startOfWeek c) = spec_startOfWeek_date c"
proof -
  let ?g = "getDay (zone c) (now c)"
  have "0 \<le> ?g \<and> ?g < 7" by (rule getDay_range)
  with assms(1) have "1 \<le> ?g" "?g < 7" by simp_all
  then have "(?g + 6) mod 7 = ?g - 1"
    by presburger
  then show ?thesis
    using assms(2)
    by (simp add: startOfWeek_date spec_startOfWeek_date_def weekday_index_from_monday_def)
qed

lemma startOfWeek_sunday:
  "getDay (zone c) (now c) = 0 \<Longrightarrow>
   toISODate (startOfWeek c) = toISODate (now c) + 1 \<and>
   spec_startOfWeek_date c = spec_calendar_date c (now c) - 6"
  by (simp add: startOfWeek_date spec_startOfWeek_date_def weekday_index_from_monday_def)

lemma spec_calendar_date_utc: "zone c = 0 \<Longrightarrow> spec_calendar_date c t = toISODate t"
  by (simp add: spec_calendar_date_def localDay_def toISODate_def)

subsection \<open>Active timers\<close>

lemma state_of_active: "state_of r = Running \<or> state_of r = Paused \<longleftrightarrow> isRunning r"
  by (simp add: state_of_def)

lemma has_active_iff:
  "has_active uid s \<longleftrightarrow> (\<exists>r \<in> set (records s). userId r = uid \<and> isRunning r)"
  by (simp add: has_active_def state_of_active)

lemma matches_running_query:
  "matches (anything\<lparr>q_userId := Some uid, q_isRunning := Some True\<rparr>) r \<longleftrightarrow>
   userId r = uid \<and> isRunning r"
  by (simp add: matches_def anything_def)

lemma findOne_running_None:
  "findOne (anything\<lparr>q_userId := Some uid, q_isRunning := Some True\<rparr>) (records s) = None
   \<longleftrightarrow> \<not> has_active uid s"
  by (simp add: findOne_None matches_running_query has_active_iff)

lemma save_new_no_conflict: "save_new r s \<noteq> Inl TimerAlreadyRunning"
  by (simp add: save_new_def)

lemma save_new_Inr:
  "save_new r s = Inr (r', s') \<longleftrightarrow>
   required_ok r \<and> rec_id r \<notin> set (map rec_id (records s)) \<and> r' = r \<and>
   s' = s\<lparr>records := records s @ [r]\<rparr>"
  by (auto simp: save_new_def)

lemma timer_start_conflict:
  "timer_start c u p t s = Inl TimerAlreadyRunning \<longleftrightarrow> has_active (caller_id u) s"
proof (cases "has_active (caller_id u) s")
  case True
  then have "findOne (anything\<lparr>q_userId := Some (caller_id u), q_isRunning := Some True\<rparr>)
      (records s) \<noteq> None"
    by (simp add: findOne_running_None)
  with True show ?thesis by (auto simp: timer_start_def)
next
  case False
  then have "findOne (anything\<lparr>q_userId := Some (caller_id u), q_isRunning := Some True\<rparr>)
      (records s) = None"
    by (simp add: findOne_running_None)
  with False show ?thesis
    by (simp add: timer_start_def save_new_no_conflict split: option.splits)
qed

lemma running_of_append:
  "running_of uid (s\<lparr>records := records s @ [r]\<rparr>) =
   running_of uid s @ (if userId r = uid \<and> isRunning r then [r] else [])"
  by (simp add: running_of_def)

lemma running_of_Nil: "running_of uid s = [] \<longleftrightarrow> \<not> has_active uid s"
  by (auto simp: running_of_def has_active_iff filter_empty_conv)

lemma has_active_append:
  "has_active uid (s\<lparr>records := records s @ [r]\<rparr>) \<longleftrightarrow>
   has_active uid s \<or> (userId r = uid \<and> isRunning r)"
  by (auto simp: has_active_iff)

lemma timer_start_Inr:
  assumes "timer_start c u p t s = Inr (r, s')"
  shows "\<not> has_active (caller_id u) s \<and> s' = s\<lparr>records := records s @ [r]\<rparr> \<and>
         userId r = caller_id u \<and> project r = p \<and> task r = t \<and> startTime r = now c \<and>
         isRunning r \<and> \<not> isPaused r \<and> \<not> isManual r \<and> date r = toISODate (now c) \<and>
         endTime r = None \<and> duration r = None \<and> durationSeconds r = None \<and>
         rec_id r = ''timer_'' @ show_int (now c)"
proof -
  from assms have na: "\<not> has_active (caller_id u) s"
    using timer_start_conflict [of c u p t s]
    by (auto simp: timer_start_def findOne_running_None [symmetric] split: option.splits)
  with assms show ?thesis
    by (auto simp: timer_start_def save_new_Inr split: option.splits)
qed

lemma records_manual_Inr:
  assumes "records_manual c u p t sto eno s = Inr (r, s')"
  shows "s' = s\<lparr>records := records s @ [r]\<rparr> \<and>
         userId r = caller_id u \<and> project r = p \<and> task r = t \<and>
         isManual r \<and> \<not> isRunning r \<and> \<not> isPaused r \<and>
         rec_id r = ''manual_'' @ show_int (now c) \<and>
         (\<exists>st en. sto = Some st \<and> eno = Some en \<and> startTime r = st \<and> endTime r = Some en \<and>
            durationSeconds r = Some ((en - st) div 1000) \<and>
            duration r = Some (formatDuration ((en - st) div 1000)) \<and> date r = toISODate st)"
  using assms
  by (auto simp: records_manual_def save_new_Inr Let_def split: option.splits)


lemma find_user_id: "List.find (\<lambda>x. user_id x = i) us = Some usr \<Longrightarrow> user_id usr = i"
  by (auto simp: find_Some_iff)

lemma timer_start_Inl:
  "timer_start c u p t s = Inl e \<Longrightarrow> e = TimerAlreadyRunning \<or> e = ServerError"
  by (auto simp: timer_start_def save_new_def split: option.splits if_splits)

lemma timer_start_saved:
  assumes "timer_start c u p t s = Inr (r, s')"
  shows "p \<noteq> [] \<and> t \<noteq> [] \<and> ''timer_'' @ show_int (now c) \<notin> set (map rec_id (records s)) \<and>
         (\<exists>usr. List.find (\<lambda>x. user_id x = caller_id u) (users s) = Some usr \<and>
            userName r = firstName usr @ '' '' @ lastName usr \<and> userEmail r = email usr)"
  using assms
  by (auto simp: timer_start_def save_new_def required_ok_def split: option.splits if_splits)


subsection \<open>What the handlers keep\<close>

lemma list_all_save_found:
  "list_all P rs \<Longrightarrow> P t \<Longrightarrow> list_all P (save_found q t rs)"
  by (induction rs) auto

lemma handle_keeps:
  assumes inv: "list_all P (records s)"
    and created: "\<And>c u p t r s'. timer_start c u p t s = Inr (r, s') \<Longrightarrow> P r"
      "\<And>c u p t st en r s'. records_manual c u p t st en s = Inr (r, s') \<Longrightarrow> P r"
    and stopped: "\<And>c u i tm. req = Stop c u i \<Longrightarrow>
        findOne (own_timer_query u i) (records s) = Some tm \<Longrightarrow> P (stop_assign c tm)"
    and paused: "\<And>u i a tm. req = Pause u i a \<Longrightarrow>
        findOne (own_timer_query u i) (records s) = Some tm \<Longrightarrow> P (pause_assign a tm)"
  shows "list_all P (records (handle req s))"
proof (cases req)
  case (Start c u p t)
  show ?thesis
  proof (cases "timer_start c u p t s")
    case (Inl e)
    with Start inv show ?thesis by simp
  next
    case (Inr x)
    obtain r s' where x: "x = (r, s')" by (cases x)
    with Inr created(1) have "P r" by blast
    moreover from Inr x have "s' = s\<lparr>records := records s @ [r]\<rparr>"
      by (simp add: timer_start_Inr)
    ultimately show ?thesis using Start Inr x inv by simp
  qed
next
  case (Stop c u i)
  show ?thesis
  proof (cases "findOne (own_timer_query u i) (records s)")
    case None
    with Stop inv show ?thesis by (simp add: timer_stop_def)
  next
    case (Some tm)
    with stopped Stop have "P (stop_assign c tm)" by blast
    with Some Stop inv show ?thesis by (simp add: timer_stop_def list_all_save_found)
  qed
next
  case (Pause u i a)
  show ?thesis
  proof (cases "findOne (own_timer_query u i) (records s)")
    case None
    with Pause inv show ?thesis by (simp add: timer_pause_def)
  next
    case (Some tm)
    with paused Pause have "P (pause_assign a tm)" by blast
    with Some Pause inv show ?thesis by (simp add: timer_pause_def list_all_save_found)
  qed
next
  case (Manual c u p t st en)
  show ?thesis
  proof (cases "records_manual c u p t st en s")
    case (Inl e)
    with Manual inv show ?thesis by simp
  next
    case (Inr x)
    obtain r s' where x: "x = (r, s')" by (cases x)
    with Inr created(2) have "P r" by blast
    moreover from Inr x have "s' = s\<lparr>records := records s @ [r]\<rparr>"
      by (simp add: records_manual_Inr)
    ultimately show ?thesis using Manual Inr x inv by simp
  qed
next
  case (DeleteEmployee u i)
  with inv show ?thesis
    by (auto simp: delete_employee_def deleteMany_def list_all_iff)
qed

lemma found_in_store: "findOne q (records s) = Some tm \<Longrightarrow> list_all P (records s) \<Longrightarrow> P tm"
  by (auto dest: findOne_Some simp: list_all_iff)

subsection \<open>The closing fields\<close>

lemma closing_ok_handle:
  assumes "list_all closing_ok (records s)"
  shows "list_all closing_ok (records (handle req s))"
proof (rule handle_keeps [OF assms])
  fix c u p t r s'
  assume "timer_start c u p t s = Inr (r, s')"
  from timer_start_Inr [OF this] show "closing_ok r"
    by (simp add: closing_ok_def running_is_open_def closing_fields_together_def)
next
  fix c u p t st en r s'
  assume "records_manual c u p t st en s = Inr (r, s')"
  from records_manual_Inr [OF this] show "closing_ok r"
    by (auto simp: closing_ok_def running_is_open_def closing_fields_together_def)
next
  fix c u i tm
  show "closing_ok (stop_assign c tm)"
    by (simp add: closing_ok_def running_is_open_def closing_fields_together_def stop_assign_def
        Let_def)
next
  fix u i a tm
  assume "findOne (own_timer_query u i) (records s) = Some tm"
  then have "closing_ok tm" using assms by (rule found_in_store)
  then show "closing_ok (pause_assign a tm)"
    by (simp add: closing_ok_def running_is_open_def closing_fields_together_def pause_assign_def)
qed

lemma closing_ok_run:
  "list_all closing_ok (records s) \<Longrightarrow> list_all closing_ok (records (run reqs s))"
  unfolding run_def by (induction reqs arbitrary: s) (simp_all add: closing_ok_handle)

subsection \<open>Paused and running\<close>

lemma saved_is_there: "findOne q rs = Some tm \<Longrightarrow> t \<in> set (save_found q t rs)"
  unfolding findOne_def by (induction rs) (auto split: if_splits)

lemma paused_is_running_handle:
  assumes inv: "list_all paused_is_running (records s)"
    and stop_ok: "\<And>c u i tm. req = Stop c u i \<Longrightarrow>
        findOne (own_timer_query u i) (records s) = Some tm \<Longrightarrow> \<not> isPaused tm"
    and pause_ok: "\<And>u i tm. req = Pause u i ''pause'' \<Longrightarrow>
        findOne (own_timer_query u i) (records s) = Some tm \<Longrightarrow> isRunning tm"
  shows "list_all paused_is_running (records (handle req s))"
proof (rule handle_keeps [OF inv])
  fix c u p t r s'
  assume "timer_start c u p t s = Inr (r, s')"
  from timer_start_Inr [OF this] show "paused_is_running r"
    by (simp add: paused_is_running_def)
next
  fix c u p t st en r s'
  assume "records_manual c u p t st en s = Inr (r, s')"
  from records_manual_Inr [OF this] show "paused_is_running r"
    by (simp add: paused_is_running_def)
next
  fix c u i tm
  assume "req = Stop c u i" "findOne (own_timer_query u i) (records s) = Some tm"
  then have "\<not> isPaused tm" by (rule stop_ok)
  then show "paused_is_running (stop_assign c tm)"
    by (simp add: paused_is_running_def stop_assign_def Let_def)
next
  fix u i a tm
  assume r: "req = Pause u i a" and f: "findOne (own_timer_query u i) (records s) = Some tm"
  from f inv have tm: "paused_is_running tm" by (rule found_in_store)
  show "paused_is_running (pause_assign a tm)"
  proof (cases "a = ''pause''")
    case True
    with r f have "isRunning tm" using pause_ok by blast
    with True show ?thesis by (simp add: paused_is_running_def pause_assign_def)
  next
    case False
    with tm show ?thesis by (simp add: paused_is_running_def pause_assign_def)
  qed
qed

lemma stop_of_paused:
  assumes "findOne (own_timer_query u i) (records s) = Some tm" "isPaused tm"
  shows "\<not> list_all paused_is_running (records (handle (Stop c u i) s))"
proof -
  have "stop_assign c tm \<in> set (records (handle (Stop c u i) s))"
    using assms(1) by (simp add: timer_stop_def saved_is_there)
  moreover have "\<not> paused_is_running (stop_assign c tm)"
    using assms(2) by (simp add: paused_is_running_def stop_assign_def Let_def)
  ultimately show ?thesis by (auto simp: list_all_iff)
qed

lemma pause_of_stopped:
  assumes "findOne (own_timer_query u i) (records s) = Some tm" "\<not> isRunning tm"
  shows "\<not> list_all paused_is_running (records (handle (Pause u i ''pause'') s))"
proof -
  have "pause_assign ''pause'' tm \<in> set (records (handle (Pause u i ''pause'') s))"
    using assms(1) by (simp add: timer_pause_def saved_is_there)
  moreover have "\<not> paused_is_running (pause_assign ''pause'' tm)"
    using assms(2) by (simp add: paused_is_running_def pause_assign_def)
  ultimately show ?thesis by (auto simp: list_all_iff)
qed

section \<open>The claims\<close>

text \<open>
  C1. Starting a timer answers \<open>Timer already running\<close> exactly when the caller has a
  record in the state Running or Paused, that is, with \<open>isRunning\<close> set; every other
  failure is a status 500. Otherwise it succeeds when the request can be saved: the
  caller's user document exists and has, as the user schema requires, an id and an email
  that are not empty, \<open>project\<close> and \<open>task\<close> are not empty, and no record has the id
  \<open>timer_<now>\<close> yet; and it succeeds only with such a project, task and id. A start
  that succeeds appends one record with \<open>startTime = now\<close>, \<open>isRunning = true\<close>,
  \<open>isPaused = false\<close> and \<open>date\<close> the UTC date of now, which is the server-local
  calendar date when the server's zone is UTC; the record is then the only running
  record of the caller. A manual entry is Stopped from its creation and changes the
  answer of no later start.
\<close>

theorem timer_start_outcome:
  "(timer_start c u p t s = Inl TimerAlreadyRunning \<longleftrightarrow> has_active (caller_id u) s) \<and>
   (\<forall>e. timer_start c u p t s = Inl e \<longrightarrow> e = TimerAlreadyRunning \<or> e = ServerError) \<and>
   (\<not> has_active (caller_id u) s \<and>
    List.find (\<lambda>x. user_id x = caller_id u) (users s) = Some usr \<and>
    user_id usr \<noteq> [] \<and> email usr \<noteq> [] \<and> p \<noteq> [] \<and> t \<noteq> [] \<and>
    ''timer_'' @ show_int (now c) \<notin> set (map rec_id (records s)) \<longrightarrow>
      (\<exists>r. timer_start c u p t s = Inr (r, s\<lparr>records := records s @ [r]\<rparr>))) \<and>
   (\<forall>r s'. timer_start c u p t s = Inr (r, s') \<longrightarrow>
      s' = s\<lparr>records := records s @ [r]\<rparr> \<and>
      p \<noteq> [] \<and> t \<noteq> [] \<and> ''timer_'' @ show_int (now c) \<notin> set (map rec_id (records s)) \<and>
      userId r = caller_id u \<and> project r = p \<and> task r = t \<and>
      startTime r = now c \<and> isRunning r \<and> \<not> isPaused r \<and>
      date r = toISODate (now c) \<and>
      (zone c = 0 \<longrightarrow> date r = spec_calendar_date c (now c)) \<and>
      state_of r = Running \<and> running_of (caller_id u) s' = [r]) \<and>
   (\<forall>r s'. records_manual c' u' p' t' sto eno s = Inr (r, s') \<longrightarrow>
      state_of r = Stopped \<and>
      (has_active (caller_id u) s' \<longleftrightarrow> has_active (caller_id u) s) \<and>
      (timer_start c u p t s' = Inl TimerAlreadyRunning \<longleftrightarrow>
       timer_start c u p t s = Inl TimerAlreadyRunning))"
proof -
  have 1: "e = TimerAlreadyRunning \<or> e = ServerError" if "timer_start c u p t s = Inl e" for e
    using that by (rule timer_start_Inl)
  have 2: "\<exists>r. timer_start c u p t s = Inr (r, s\<lparr>records := records s @ [r]\<rparr>)"
    if "\<not> has_active (caller_id u) s"
      "List.find (\<lambda>x. user_id x = caller_id u) (users s) = Some usr"
      "user_id usr \<noteq> []" "email usr \<noteq> []" "p \<noteq> []" "t \<noteq> []"
      "''timer_'' @ show_int (now c) \<notin> set (map rec_id (records s))"
  proof -
    from that(2,3) have "caller_id u \<noteq> []" by (auto dest: find_user_id)
    with that show ?thesis
      by (simp add: timer_start_def findOne_running_None [THEN iffD2] save_new_def
          required_ok_def)
  qed
  have 3: "s' = s\<lparr>records := records s @ [r]\<rparr> \<and>
      p \<noteq> [] \<and> t \<noteq> [] \<and> ''timer_'' @ show_int (now c) \<notin> set (map rec_id (records s)) \<and>
      userId r = caller_id u \<and> project r = p \<and> task r = t \<and>
      startTime r = now c \<and> isRunning r \<and> \<not> isPaused r \<and>
      date r = toISODate (now c) \<and>
      (zone c = 0 \<longrightarrow> date r = spec_calendar_date c (now c)) \<and>
      state_of r = Running \<and> running_of (caller_id u) s' = [r]"
    if "timer_start c u p t s = Inr (r, s')" for r s'
  proof -
    note f = timer_start_Inr [OF that] and g = timer_start_saved [OF that]
    from f have "running_of (caller_id u) s = []" by (simp add: running_of_Nil)
    with f g show ?thesis
      by (simp add: running_of_append state_of_def spec_calendar_date_utc)
  qed
  have 4: "state_of r = Stopped \<and>
      (has_active (caller_id u) s' \<longleftrightarrow> has_active (caller_id u) s) \<and>
      (timer_start c u p t s' = Inl TimerAlreadyRunning \<longleftrightarrow>
       timer_start c u p t s = Inl TimerAlreadyRunning)"
    if "records_manual c' u' p' t' sto eno s = Inr (r, s')" for r s'
  proof -
    note f = records_manual_Inr [OF that]
    from f have "has_active (caller_id u) s' \<longleftrightarrow> has_active (caller_id u) s"
      by (simp add: has_active_append)
    with f show ?thesis by (simp add: timer_start_conflict state_of_def)
  qed
  from timer_start_conflict [of c u p t s] 1 2 3 4 show ?thesis by blast
qed

text \<open>
  Alice, with her three manual entries of the week, starts a timer on Saturday, on a
  server in UTC. Bob, whose timer runs, cannot start another one on Sunday, neither
  before nor after a manual entry of his.
\<close>

theorem timer_start_outcome_witness:
  "\<not> has_active (caller_id as_alice) week_store \<and>
   List.find (\<lambda>x. user_id x = caller_id as_alice) (users week_store) = Some alice \<and>
   user_id alice \<noteq> [] \<and> email alice \<noteq> [] \<and> ''Apollo'' \<noteq> [] \<and> ''review'' \<noteq> [] \<and>
   ''timer_'' @ show_int (now (utc sat12)) \<notin> set (map rec_id (records week_store)) \<and>
   zone (utc sat12) = 0 \<and>
   (\<exists>r. timer_start (utc sat12) as_alice ''Apollo'' ''review'' week_store =
      Inr (r, week_store\<lparr>records := records week_store @ [r]\<rparr>) \<and>
      startTime r = sat12 \<and> isRunning r \<and> \<not> isPaused r \<and> date r = 19728 \<and>
      date r = spec_calendar_date (utc sat12) (now (utc sat12)) \<and>
      running_of ''emp_1'' (week_store\<lparr>records := records week_store @ [r]\<rparr>) = [r]) \<and>
   has_active (caller_id as_bob) busy_store \<and>
   timer_start (utc sun12) as_bob ''Hermes'' ''notes'' busy_store = Inl TimerAlreadyRunning \<and>
   (\<exists>r s'. records_manual (utc sun12) as_bob ''Hermes'' ''notes'' (Some fri9) (Some fri10)
        busy_store = Inr (r, s') \<and> state_of r = Stopped \<and>
      timer_start (utc sun12) as_bob ''Hermes'' ''notes'' s' = Inl TimerAlreadyRunning \<and>
      \<not> has_active (caller_id as_alice) s')"
proof -
  have h: "\<not> has_active (caller_id as_alice) week_store \<and>
    List.find (\<lambda>x. user_id x = caller_id as_alice) (users week_store) = Some alice \<and>
    user_id alice \<noteq> [] \<and> email alice \<noteq> [] \<and> ''Apollo'' \<noteq> [] \<and> ''review'' \<noteq> [] \<and>
    ''timer_'' @ show_int (now (utc sat12)) \<notin> set (map rec_id (records week_store))"
    unfolding has_active_iff by code_simp
  have d: "toISODate sat12 = 19728" "caller_id as_alice = ''emp_1''" "now (utc sat12) = sat12"
    "zone (utc sat12) = 0" "spec_calendar_date (utc sat12) sat12 = 19728"
    by code_simp+
  have b: "has_active (caller_id as_bob) busy_store" "\<not> has_active (caller_id as_alice) busy_store"
    unfolding has_active_iff by code_simp+
  note inst = timer_start_outcome [of "utc sat12" as_alice "''Apollo''" "''review''" week_store alice]
  from h inst
  obtain r where r: "timer_start (utc sat12) as_alice ''Apollo'' ''review'' week_store =
      Inr (r, week_store\<lparr>records := records week_store @ [r]\<rparr>)"
    by blast
  with inst
  have "startTime r = sat12 \<and> isRunning r \<and> \<not> isPaused r \<and> date r = 19728 \<and>
      date r = spec_calendar_date (utc sat12) (now (utc sat12)) \<and>
      running_of ''emp_1'' (week_store\<lparr>records := records week_store @ [r]\<rparr>) = [r]"
    using d by auto
  with h r have 1: "\<exists>r. timer_start (utc sat12) as_alice ''Apollo'' ''review'' week_store =
      Inr (r, week_store\<lparr>records := records week_store @ [r]\<rparr>) \<and>
      startTime r = sat12 \<and> isRunning r \<and> \<not> isPaused r \<and> date r = 19728 \<and>
      date r = spec_calendar_date (utc sat12) (now (utc sat12)) \<and>
      running_of ''emp_1'' (week_store\<lparr>records := records week_store @ [r]\<rparr>) = [r]"
    by blast
  note bob = timer_start_outcome [of "utc sun12" as_bob "''Hermes''" "''notes''" busy_store _
      "utc sun12" as_bob "''Hermes''" "''notes''" "Some fri9" "Some fri10"]
  note alice = timer_start_outcome [of "utc sun12" as_alice "''Hermes''" "''notes''" busy_store _
      "utc sun12" as_bob "''Hermes''" "''notes''" "Some fri9" "Some fri10"]
  from b(1) bob
  have 2: "timer_start (utc sun12) as_bob ''Hermes'' ''notes'' busy_store = Inl TimerAlreadyRunning"
    by blast
  have "map_sum id (\<lambda>x. ()) (records_manual (utc sun12) as_bob ''Hermes'' ''notes''
      (Some fri9) (Some fri10) busy_store) = Inr ()"
    by code_simp
  then obtain m s' where m: "records_manual (utc sun12) as_bob ''Hermes'' ''notes''
      (Some fri9) (Some fri10) busy_store = Inr (m, s')"
    by (cases "records_manual (utc sun12) as_bob ''Hermes'' ''notes''
      (Some fri9) (Some fri10) busy_store") auto
  from m bob 2 have 3: "state_of m = Stopped \<and>
      timer_start (utc sun12) as_bob ''Hermes'' ''notes'' s' = Inl TimerAlreadyRunning"
    by blast
  from m alice b(2) have 4: "\<not> has_active (caller_id as_alice) s'"
    by blast
  from h d(4) 1 b(1) 2 m 3 4 show ?thesis by blast
qed

text \<open>
  Bob, who has no timer, starts one in the very millisecond in which Alice started
  hers: the two ids are the same, the unique index rejects the record and the answer is
  status 500, not a success. And on a server nine hours ahead of UTC a timer started at
  one o'clock at night on Wednesday, day 19725 there, is dated 19724, the Tuesday of
  UTC.
\<close>

theorem timer_start_counterexample:
  "\<not> has_active (caller_id as_bob) started_store \<and>
   List.find (\<lambda>x. user_id x = caller_id as_bob) (users started_store) = Some bob \<and>
   timer_start (utc mon9) as_bob ''Hermes'' ''review'' started_store = Inl ServerError \<and>
   map_sum id (\<lambda>x. date (fst x)) (timer_start (jst wed1_jst) as_alice ''Apollo'' ''design'' team) =
     Inr 19724 \<and>
   spec_calendar_date (jst wed1_jst) (now (jst wed1_jst)) = 19725"
  unfolding has_active_iff by code_simp

text \<open>
  C2. Stopping a record that the caller owns sets, in one write, \<open>isRunning = false\<close>,
  \<open>endTime = now\<close>, \<open>durationSeconds = floor((now - startTime) / 1000)\<close> and
  \<open>duration\<close> the rendering of these seconds. The seconds are not clamped: they are
  non-negative exactly when now is not before the start. The record need not be running:
  a stop of a stopped record overwrites the three fields. In every store that requests
  build up from one without records, a running record has none of the three fields and
  every record has all three or none.
\<close>

theorem timer_stop_outcome:
  "(findOne (own_timer_query u i) (records s) = Some tm \<longrightarrow>
      (\<exists>r. timer_stop c u i s =
              Inr (r, s\<lparr>records := save_found (own_timer_query u i) r (records s)\<rparr>) \<and>
         r = tm\<lparr>endTime := Some (now c),
                duration := Some (formatDuration ((now c - startTime tm) div 1000)),
                durationSeconds := Some ((now c - startTime tm) div 1000),
                isRunning := False\<rparr> \<and>
         \<not> isRunning r \<and> endTime r = Some (now c) \<and>
         durationSeconds r = Some ((now c - startTime tm) div 1000) \<and>
         duration r = Some (formatDuration ((now c - startTime tm) div 1000)) \<and>
         (0 \<le> (now c - startTime tm) div 1000 \<longleftrightarrow> startTime tm \<le> now c))) \<and>
   (\<forall>r \<in> set (records (run reqs \<lparr>users = us, records = []\<rparr>)).
      running_is_open r \<and> closing_fields_together r)"
proof -
  have "list_all closing_ok (records (run reqs \<lparr>users = us, records = []\<rparr>))"
    by (rule closing_ok_run) simp
  then have "\<forall>r \<in> set (records (run reqs \<lparr>users = us, records = []\<rparr>)).
      running_is_open r \<and> closing_fields_together r"
    by (simp add: list_all_iff closing_ok_def)
  moreover have "(0 \<le> (now c - startTime tm) div 1000) = (startTime tm \<le> now c)"
    by (simp add: pos_imp_zdiv_nonneg_iff)
  ultimately show ?thesis
    by (simp add: timer_stop_def stop_assign_def Let_def)
qed

text \<open>
  Alice stops, at ten, the timer she started at nine.
\<close>

theorem timer_stop_outcome_witness:
  "findOne (own_timer_query as_alice ''timer_1704099600000'') (records started_store) =
     Some (hd (records started_store)) \<and>
   (\<exists>r. timer_stop (utc mon10) as_alice ''timer_1704099600000'' started_store =
       Inr (r, started_store\<lparr>records :=
         save_found (own_timer_query as_alice ''timer_1704099600000'') r (records started_store)\<rparr>) \<and>
      \<not> isRunning r \<and> endTime r = Some mon10 \<and> durationSeconds r = Some 3600 \<and>
      duration r = Some ''1h 0m'') \<and>
   list_all (\<lambda>r. running_is_open r \<and> closing_fields_together r)
     (records (run week_requests \<lparr>users = [alice], records = []\<rparr>))"
proof -
  have h: "findOne (own_timer_query as_alice ''timer_1704099600000'') (records started_store) =
     Some (hd (records started_store))"
    by code_simp
  have v: "now (utc mon10) = mon10"
    "(now (utc mon10) - startTime (hd (records started_store))) div 1000 = 3600"
    "formatDuration 3600 = ''1h 0m''"
    by code_simp+
  from h v timer_stop_outcome [of as_alice "''timer_1704099600000''" started_store
      "hd (records started_store)" "utc mon10" week_requests "[alice]"]
  show ?thesis by (auto simp: list_all_iff)
qed

text \<open>
  When the clock is set back five seconds between start and stop, the stop stores
  \<open>-5\<close> seconds; and a second stop of the same record, on Wednesday, replaces the
  3600 seconds of the first stop by 172800.
\<close>

theorem timer_stop_counterexample:
  "map_sum id (\<lambda>x. (durationSeconds (fst x), duration (fst x)))
     (timer_stop (utc mon9) as_alice ''timer_1704099605000''
        (handle (Start (utc (mon9 + 5000)) as_alice ''Apollo'' ''design'') team)) =
     Inr (Some (- 5), Some ''-5s'') \<and>
   map durationSeconds (records (run [Stop (utc mon10) as_alice ''timer_1704099600000'']
     started_store)) = [Some 3600] \<and>
   map durationSeconds (records (run [Stop (utc mon10) as_alice ''timer_1704099600000'',
     Stop (utc wed9) as_alice ''timer_1704099600000''] started_store)) = [Some 172800]"
  by code_simp

text \<open>
  C3. On a store in which every paused record is running, this stays so after a start,
  a manual entry, a deletion of a user and a pause request with any action but
  \<open>pause\<close>; after the action \<open>pause\<close> exactly when the record found for the caller,
  if any, is running; and after a stop exactly when the record found, if any, is not
  paused. The handlers set \<open>isPaused\<close> and \<open>isRunning\<close> without looking at the other
  flag.
\<close>

theorem paused_is_running_kept:
  "list_all paused_is_running (records s) \<longrightarrow>
     list_all paused_is_running (records (handle (Start c u p t) s)) \<and>
     list_all paused_is_running (records (handle (Manual c u p t st en) s)) \<and>
     list_all paused_is_running (records (handle (DeleteEmployee u i) s)) \<and>
     (a \<noteq> ''pause'' \<longrightarrow> list_all paused_is_running (records (handle (Pause u i a) s))) \<and>
     (list_all paused_is_running (records (handle (Pause u i ''pause'') s)) \<longleftrightarrow>
        (\<forall>tm. findOne (own_timer_query u i) (records s) = Some tm \<longrightarrow> isRunning tm)) \<and>
     (list_all paused_is_running (records (handle (Stop c u i) s)) \<longleftrightarrow>
        (\<forall>tm. findOne (own_timer_query u i) (records s) = Some tm \<longrightarrow> \<not> isPaused tm))"
proof
  assume inv: "list_all paused_is_running (records s)"
  have 1: "list_all paused_is_running (records (handle (Start c u p t) s))"
    "list_all paused_is_running (records (handle (Manual c u p t st en) s))"
    "list_all paused_is_running (records (handle (DeleteEmployee u i) s))"
    using inv by (rule paused_is_running_handle; simp)+
  have 2: "list_all paused_is_running (records (handle (Pause u i a) s))" if "a \<noteq> ''pause''"
    using inv by (rule paused_is_running_handle) (use that in simp_all)
  have 3: "list_all paused_is_running (records (handle (Pause u i ''pause'') s)) \<longleftrightarrow>
        (\<forall>tm. findOne (own_timer_query u i) (records s) = Some tm \<longrightarrow> isRunning tm)"
  proof
    assume "list_all paused_is_running (records (handle (Pause u i ''pause'') s))"
    then show "\<forall>tm. findOne (own_timer_query u i) (records s) = Some tm \<longrightarrow> isRunning tm"
      using pause_of_stopped [of u i s] by blast
  next
    assume "\<forall>tm. findOne (own_timer_query u i) (records s) = Some tm \<longrightarrow> isRunning tm"
    with inv show "list_all paused_is_running (records (handle (Pause u i ''pause'') s))"
      by (intro paused_is_running_handle) simp_all
  qed
  have 4: "list_all paused_is_running (records (handle (Stop c u i) s)) \<longleftrightarrow>
        (\<forall>tm. findOne (own_timer_query u i) (records s) = Some tm \<longrightarrow> \<not> isPaused tm)"
  proof
    assume "list_all paused_is_running (records (handle (Stop c u i) s))"
    then show "\<forall>tm. findOne (own_timer_query u i) (records s) = Some tm \<longrightarrow> \<not> isPaused tm"
      using stop_of_paused [of u i s _ c] by blast
  next
    assume "\<forall>tm. findOne (own_timer_query u i) (records s) = Some tm \<longrightarrow> \<not> isPaused tm"
    with inv show "list_all paused_is_running (records (handle (Stop c u i) s))"
      by (intro paused_is_running_handle) simp_all
  qed
  from 1 2 3 4 show "list_all paused_is_running (records (handle (Start c u p t) s)) \<and>
     list_all paused_is_running (records (handle (Manual c u p t st en) s)) \<and>
     list_all paused_is_running (records (handle (DeleteEmployee u i) s)) \<and>
     (a \<noteq> ''pause'' \<longrightarrow> list_all paused_is_running (records (handle (Pause u i a) s))) \<and>
     (list_all paused_is_running (records (handle (Pause u i ''pause'') s)) \<longleftrightarrow>
        (\<forall>tm. findOne (own_timer_query u i) (records s) = Some tm \<longrightarrow> isRunning tm)) \<and>
     (list_all paused_is_running (records (handle (Stop c u i) s)) \<longleftrightarrow>
        (\<forall>tm. findOne (own_timer_query u i) (records s) = Some tm \<longrightarrow> \<not> isPaused tm))"
    by blast
qed

text \<open>
  On the store with Alice's timer, which runs and is not paused, each request keeps
  the invariant: her pause, her resume, her stop, a start and a manual entry of Bob, and
  her deletion by the admin.
\<close>

theorem paused_is_running_kept_witness:
  "list_all paused_is_running (records started_store) \<and>
   findOne (own_timer_query as_alice ''timer_1704099600000'') (records started_store) =
     Some (hd (records started_store)) \<and>
   isRunning (hd (records started_store)) \<and> \<not> isPaused (hd (records started_store)) \<and>
   ''resume'' \<noteq> ''pause'' \<and>
   list_all paused_is_running (records
     (handle (Pause as_alice ''timer_1704099600000'' ''pause'') started_store)) \<and>
   list_all paused_is_running (records
     (handle (Pause as_alice ''timer_1704099600000'' ''resume'') started_store)) \<and>
   list_all paused_is_running (records
     (handle (Stop (utc mon10) as_alice ''timer_1704099600000'') started_store)) \<and>
   list_all paused_is_running (records
     (handle (Start (utc mon10) as_bob ''Hermes'' ''review'') started_store)) \<and>
   list_all paused_is_running (records
     (handle (Manual (utc mon10) as_bob ''Hermes'' ''review'' (Some mon9) (Some mon10))
        started_store)) \<and>
   list_all paused_is_running (records (handle (DeleteEmployee as_admin ''emp_1'') started_store))"
proof -
  have h: "list_all paused_is_running (records started_store)"
    "findOne (own_timer_query as_alice ''timer_1704099600000'') (records started_store) =
       Some (hd (records started_store))"
    "isRunning (hd (records started_store))" "\<not> isPaused (hd (records started_store))"
    "''resume'' \<noteq> ''pause''"
    by code_simp+
  note bob = paused_is_running_kept [of started_store "utc mon10" as_bob "''Hermes''"
      "''review''" "Some mon9" "Some mon10"]
  note alice = paused_is_running_kept [of started_store "utc mon10" as_alice _ _ _ _
      "''timer_1704099600000''" "''resume''"]
  note admin = paused_is_running_kept [of started_store _ as_admin _ _ _ _ "''emp_1''"]
  from h bob have b: "list_all paused_is_running (records
       (handle (Start (utc mon10) as_bob ''Hermes'' ''review'') started_store))"
    "list_all paused_is_running (records
       (handle (Manual (utc mon10) as_bob ''Hermes'' ''review'' (Some mon9) (Some mon10))
          started_store))"
    by blast+
  from h admin have d:
    "list_all paused_is_running (records (handle (DeleteEmployee as_admin ''emp_1'') started_store))"
    by blast
  from h alice have a: "list_all paused_is_running (records
       (handle (Pause as_alice ''timer_1704099600000'' ''pause'') started_store))"
    "list_all paused_is_running (records
       (handle (Pause as_alice ''timer_1704099600000'' ''resume'') started_store))"
    "list_all paused_is_running (records
       (handle (Stop (utc mon10) as_alice ''timer_1704099600000'') started_store))"
    by simp_all
  from h a b d show ?thesis by simp
qed

text \<open>
  Stopping a paused timer, and pausing a stopped one, leave a record that is paused and
  not running.
\<close>

theorem paused_is_running_counterexample:
  "\<not> list_all paused_is_running (records (run
      [Start (utc mon9) as_alice ''Apollo'' ''design'',
       Pause as_alice ''timer_1704099600000'' ''pause'',
       Stop (utc mon10) as_alice ''timer_1704099600000''] team)) \<and>
   \<not> list_all paused_is_running (records (run
      [Start (utc mon9) as_alice ''Apollo'' ''design'',
       Stop (utc mon10) as_alice ''timer_1704099600000'',
       Pause as_alice ''timer_1704099600000'' ''pause''] team))"
  by code_simp




text \<open>
  C5. The weekly window of both dashboards, on a Sunday. Sunday the 7th of January 2024
  is day 19729; the week that starts on Monday starts on day 19723, but \<open>startOfWeek\<close>
  is day 19730, the Monday after. Alice's three hours of Monday, Wednesday and Friday
  are therefore outside the window of both dashboards on Sunday (weekly total \<open>0.0\<close>,
  no day, average \<open>0.0\<close>), while on the Saturday before they give the weekly total
  \<open>3.0\<close> on 3 days and the average \<open>1.0\<close>.
\<close>

theorem sunday_week_window:
  "getDay (zone (utc sun12)) (now (utc sun12)) = 0 \<and>
   toISODate (now (utc sun12)) = 19729 \<and>
   spec_startOfWeek_date (utc sun12) = 19723 \<and>
   toISODate (startOfWeek (utc sun12)) = 19730 \<and>
   map (\<lambda>r. (date r, durationSeconds r, isRunning r)) (records week_store) =
     [(19723, Some 3600, False), (19725, Some 3600, False), (19727, Some 3600, False)] \<and>
   admin_dashboard_stats (utc sun12) as_admin week_store =
     Inr \<lparr>totalHoursToday = ''0.0'', adm_weeklyTotal = ''0.0'', activeTimersNow = 0,
          adm_daysThisWeek = 0, totalTeamMembers = 2, activeToday = 0,
          avgHoursPerDay = ''0.0''\<rparr> \<and>
   employee_dashboard_stats (utc sun12) as_alice week_store =
     \<lparr>todayHours = ''0.0'', todaySessions = 0, emp_weeklyTotal = ''0.0'',
      emp_daysThisWeek = 0, currentStatus = ''Not Working'',
      statusDetail = ''Ready to start tracking'', productivityScore = 0\<rparr> \<and>
   toISODate (startOfWeek (utc sat12)) = 19723 \<and>
   admin_dashboard_stats (utc sat12) as_admin week_store =
     Inr \<lparr>totalHoursToday = ''0.0'', adm_weeklyTotal = ''3.0'', activeTimersNow = 0,
          adm_daysThisWeek = 3, totalTeamMembers = 2, activeToday = 0,
          avgHoursPerDay = ''1.0''\<rparr> \<and>
   employee_dashboard_stats (utc sat12) as_alice week_store =
     \<lparr>todayHours = ''0.0'', todaySessions = 0, emp_weeklyTotal = ''3.0'',
      emp_daysThisWeek = 3, currentStatus = ''Not Working'',
      statusDetail = ''Ready to start tracking'', productivityScore = 8\<rparr>"
  by code_simp

text \<open>
  C6. A running record is in no listing, admin or employee, whatever the date range,
  employee and project filters are, and it adds to no hour total of either dashboard:
  two stores with the same closed records give the same listings and the same totals.
\<close>

theorem running_records_excluded:
  "(\<forall>rs. admin_records c a dr e p s = Inr rs \<longrightarrow> (\<forall>r \<in> set rs. \<not> isRunning r)) \<and>
   (\<forall>r \<in> set (employee_records c u dr p s). \<not> isRunning r) \<and>
   (closed_records s = closed_records s' \<longrightarrow>
      admin_records c a dr e p s = admin_records c a dr e p s' \<and>
      employee_records c u dr p s = employee_records c u dr p s' \<and>
      (\<forall>st st'. admin_dashboard_stats c a s = Inr st \<and> admin_dashboard_stats c a s' = Inr st' \<longrightarrow>
         totalHoursToday st = totalHoursToday st' \<and> adm_weeklyTotal st = adm_weeklyTotal st' \<and>
         avgHoursPerDay st = avgHoursPerDay st' \<and> adm_daysThisWeek st = adm_daysThisWeek st' \<and>
         activeToday st = activeToday st') \<and>
      todayHours (employee_dashboard_stats c u s) = todayHours (employee_dashboard_stats c u s') \<and>
      todaySessions (employee_dashboard_stats c u s) = todaySessions (employee_dashboard_stats c u s') \<and>
      emp_weeklyTotal (employee_dashboard_stats c u s) = emp_weeklyTotal (employee_dashboard_stats c u s') \<and>
      emp_daysThisWeek (employee_dashboard_stats c u s) = emp_daysThisWeek (employee_dashboard_stats c u s') \<and>
      productivityScore (employee_dashboard_stats c u s) =
        productivityScore (employee_dashboard_stats c u s'))"
proof -
  have 1: "\<not> isRunning r" if "admin_records c a dr e p s = Inr rs" "r \<in> set rs" for rs r
  proof -
    from that have "r \<in> set (find_records (admin_query c dr e p) (records s))"
      by (auto simp: admin_records_def set_sort_startTime_desc split: if_splits dest: in_set_takeD)
    then show ?thesis
      using matches_isRunning [of "admin_query c dr e p" False r] by (simp add: mem_find_records)
  qed
  have 2: "\<not> isRunning r" if "r \<in> set (employee_records c u dr p s)" for r
    using that matches_isRunning [of "employee_query c u dr p" False r]
    by (simp add: employee_records_def set_sort_startTime_desc mem_find_records)
  have 3: "admin_records c a dr e p s = admin_records c a dr e p s'"
    "employee_records c u dr p s = employee_records c u dr p s'"
    if "closed_records s = closed_records s'"
    using that
    by (simp_all add: admin_records_def employee_records_def
        find_records_closed_eq [of s s' "admin_query c dr e p"]
        find_records_closed_eq [of s s' "employee_query c u dr p"])
  have 4: "totalHoursToday st = totalHoursToday st' \<and> adm_weeklyTotal st = adm_weeklyTotal st' \<and>
         avgHoursPerDay st = avgHoursPerDay st' \<and> adm_daysThisWeek st = adm_daysThisWeek st' \<and>
         activeToday st = activeToday st'"
    if "closed_records s = closed_records s'"
      "admin_dashboard_stats c a s = Inr st \<and> admin_dashboard_stats c a s' = Inr st'" for st st'
    using that admin_stats_closed [of s s' c a st st'] by simp
  show ?thesis
  proof (intro conjI impI allI ballI)
    fix rs r
    assume "admin_records c a dr e p s = Inr rs" "r \<in> set rs"
    then show "\<not> isRunning r" by (rule 1)
  next
    fix r
    assume "r \<in> set (employee_records c u dr p s)"
    then show "\<not> isRunning r" by (rule 2)
  qed (use 3 4 employee_stats_closed [of s s' c u] in simp_all)
qed

text \<open>
  Bob's running timer is in the store of the one side and not of the other: the
  listings and the hour totals agree, the count of active timers does not.
\<close>

theorem running_records_excluded_witness:
  "closed_records busy_store = closed_records week_store \<and>
   length (records busy_store) = 4 \<and> length (records week_store) = 3 \<and>
   admin_records (utc sat12) as_admin ''week'' [] [] busy_store =
     Inr (sort_startTime_desc (records week_store)) \<and>
   list_all (\<lambda>r. \<not> isRunning r) (sort_startTime_desc (records week_store)) \<and>
   employee_records (utc sat12) as_bob [] [] busy_store = [] \<and>
   (\<exists>st st'. admin_dashboard_stats (utc sat12) as_admin busy_store = Inr st \<and>
      admin_dashboard_stats (utc sat12) as_admin week_store = Inr st' \<and>
      activeTimersNow st = 1 \<and> activeTimersNow st' = 0 \<and>
      adm_weeklyTotal st = adm_weeklyTotal st' \<and> avgHoursPerDay st = avgHoursPerDay st' \<and>
      totalHoursToday st = totalHoursToday st')"
proof -
  have h: "closed_records busy_store = closed_records week_store"
    "length (records busy_store) = 4" "length (records week_store) = 3"
    "admin_records (utc sat12) as_admin ''week'' [] [] busy_store =
       Inr (sort_startTime_desc (records week_store))"
    "employee_records (utc sat12) as_bob [] [] busy_store = []"
    by code_simp+
  note inst = running_records_excluded [of "utc sat12" as_admin "''week''" "[]" "[]"
      busy_store as_bob week_store]
  from h(4) inst have r: "list_all (\<lambda>r. \<not> isRunning r) (sort_startTime_desc (records week_store))"
    by (simp add: list_all_iff)
  obtain st st' where st: "admin_dashboard_stats (utc sat12) as_admin busy_store = Inr st"
    "admin_dashboard_stats (utc sat12) as_admin week_store = Inr st'"
    by (simp add: admin_dashboard_stats_def as_admin_def Let_def)
  have a: "map_sum id activeTimersNow (admin_dashboard_stats (utc sat12) as_admin busy_store) = Inr 1"
    "map_sum id activeTimersNow (admin_dashboard_stats (utc sat12) as_admin week_store) = Inr 0"
    by code_simp+
  with st have "activeTimersNow st = 1 \<and> activeTimersNow st' = 0" by simp
  moreover from h(1) st inst have "adm_weeklyTotal st = adm_weeklyTotal st' \<and>
      avgHoursPerDay st = avgHoursPerDay st' \<and> totalHoursToday st = totalHoursToday st'"
    by blast
  ultimately show ?thesis using h r st by blast
qed

text \<open>
  C7. The employee endpoints see and touch the caller's own records only. A listing
  holds the caller's records and no others; stop and pause answer \<open>Timer not found\<close>
  for an id that only other users' records have; a stop or pause that succeeds leaves
  every other user's records and the users as they were; and on two stores with the
  same records of the caller, the listing, the dashboard, the answers of stop and pause
  and the caller's records afterwards are the same.
\<close>

theorem employee_scope_isolated:
  "(\<forall>r \<in> set (employee_records c u dr p s). userId r = caller_id u) \<and>
   ((\<forall>r \<in> set (records s). rec_id r = i \<longrightarrow> userId r \<noteq> caller_id u) \<longrightarrow>
      timer_stop c u i s = Inl TimerNotFound \<and> timer_pause u i a s = Inl TimerNotFound) \<and>
   (\<forall>r s2. timer_stop c u i s = Inr (r, s2) \<or> timer_pause u i a s = Inr (r, s2) \<longrightarrow>
      userId r = caller_id u \<and>
      others_records (caller_id u) s2 = others_records (caller_id u) s \<and> users s2 = users s) \<and>
   (own_records (caller_id u) s = own_records (caller_id u) s' \<longrightarrow>
      employee_records c u dr p s = employee_records c u dr p s' \<and>
      employee_dashboard_stats c u s = employee_dashboard_stats c u s' \<and>
      map_sum id fst (timer_stop c u i s) = map_sum id fst (timer_stop c u i s') \<and>
      map_sum id fst (timer_pause u i a s) = map_sum id fst (timer_pause u i a s') \<and>
      own_records (caller_id u) (handle (Stop c u i) s) =
        own_records (caller_id u) (handle (Stop c u i) s') \<and>
      own_records (caller_id u) (handle (Pause u i a) s) =
        own_records (caller_id u) (handle (Pause u i a) s'))"
proof -
  have 1: "userId r = caller_id u" if "r \<in> set (employee_records c u dr p s)" for r
    using that matches_userId [of "employee_query c u dr p" "caller_id u" r]
    by (simp add: employee_records_def set_sort_startTime_desc mem_find_records)
  have 2: "timer_stop c u i s = Inl TimerNotFound \<and> timer_pause u i a s = Inl TimerNotFound"
    if "\<forall>r \<in> set (records s). rec_id r = i \<longrightarrow> userId r \<noteq> caller_id u"
    using not_own_not_found [OF that] by simp
  have 3: "userId r = caller_id u \<and>
      others_records (caller_id u) s2 = others_records (caller_id u) s \<and> users s2 = users s"
    if "timer_stop c u i s = Inr (r, s2) \<or> timer_pause u i a s = Inr (r, s2)" for r s2
    using that timer_stop_frame [of c u i s r s2] timer_pause_frame [of u i a s r s2] by blast
  have 4: "employee_records c u dr p s = employee_records c u dr p s' \<and>
      employee_dashboard_stats c u s = employee_dashboard_stats c u s' \<and>
      map_sum id fst (timer_stop c u i s) = map_sum id fst (timer_stop c u i s') \<and>
      map_sum id fst (timer_pause u i a s) = map_sum id fst (timer_pause u i a s') \<and>
      own_records (caller_id u) (handle (Stop c u i) s) =
        own_records (caller_id u) (handle (Stop c u i) s') \<and>
      own_records (caller_id u) (handle (Pause u i a) s) =
        own_records (caller_id u) (handle (Pause u i a) s')"
    if own: "own_records (caller_id u) s = own_records (caller_id u) s'"
  proof -
    have "find_records (employee_query c u dr p) (records s) =
          find_records (employee_query c u dr p) (records s')"
      using own by (rule find_records_own_eq) simp
    then have "employee_records c u dr p s = employee_records c u dr p s'"
      by (simp add: employee_records_def)
    with employee_stats_own [OF own] timer_stop_own [OF own] timer_pause_own [OF own]
    show ?thesis by blast
  qed
  from 1 2 3 4 show ?thesis by blast
qed

text \<open>
  Alice's view of the week is the same with and without Bob's timer in the store, she
  cannot stop or pause that timer, and Bob's stop of it leaves her records alone.
\<close>

theorem employee_scope_isolated_witness:
  "own_records (caller_id as_alice) week_store = own_records (caller_id as_alice) busy_store \<and>
   length (records week_store) = 3 \<and> length (records busy_store) = 4 \<and>
   timer_stop (utc sat12) as_alice ''timer_1704542400000'' busy_store = Inl TimerNotFound \<and>
   timer_pause as_alice ''timer_1704542400000'' ''pause'' busy_store = Inl TimerNotFound \<and>
   employee_records (utc sat12) as_alice ''week'' ''Apollo'' week_store =
     employee_records (utc sat12) as_alice ''week'' ''Apollo'' busy_store \<and>
   employee_dashboard_stats (utc sat12) as_alice week_store =
     employee_dashboard_stats (utc sat12) as_alice busy_store \<and>
   list_all (\<lambda>r. userId r = caller_id as_alice)
     (employee_records (utc sat12) as_alice ''week'' ''Apollo'' busy_store) \<and>
   (\<exists>r s2. timer_stop (utc sun12) as_bob ''timer_1704542400000'' busy_store = Inr (r, s2) \<and>
      userId r = caller_id as_bob \<and>
      others_records (caller_id as_bob) s2 = others_records (caller_id as_bob) busy_store)"
proof -
  have h: "own_records (caller_id as_alice) week_store = own_records (caller_id as_alice) busy_store"
    "length (records week_store) = 3" "length (records busy_store) = 4"
    by code_simp+
  have nf: "\<forall>r \<in> set (records busy_store).
       rec_id r = ''timer_1704542400000'' \<longrightarrow> userId r \<noteq> caller_id as_alice"
    by code_simp
  note alice = employee_scope_isolated [of "utc sat12" as_alice "''week''" "''Apollo''" busy_store
      "''timer_1704542400000''" "''pause''" week_store]
  from alice have a1: "\<forall>r \<in> set (employee_records (utc sat12) as_alice ''week'' ''Apollo'' busy_store).
      userId r = caller_id as_alice"
    by (rule conjunct1)
  from alice nf have a2:
    "timer_stop (utc sat12) as_alice ''timer_1704542400000'' busy_store = Inl TimerNotFound"
    "timer_pause as_alice ''timer_1704542400000'' ''pause'' busy_store = Inl TimerNotFound"
    by blast+
  from alice h(1) have a4:
    "employee_records (utc sat12) as_alice ''week'' ''Apollo'' busy_store =
     employee_records (utc sat12) as_alice ''week'' ''Apollo'' week_store"
    "employee_dashboard_stats (utc sat12) as_alice busy_store =
     employee_dashboard_stats (utc sat12) as_alice week_store"
    by metis+
  note bob = employee_scope_isolated [of "utc sun12" as_bob "[]" "[]" busy_store
      "''timer_1704542400000''" "''pause''" busy_store]
  have "map_sum id (\<lambda>x. ()) (timer_stop (utc sun12) as_bob ''timer_1704542400000'' busy_store) =
          Inr ()"
    by code_simp
  then obtain r s2 where
    s2: "timer_stop (utc sun12) as_bob ''timer_1704542400000'' busy_store = Inr (r, s2)"
    by (cases "timer_stop (utc sun12) as_bob ''timer_1704542400000'' busy_store") auto
  with bob have b3: "userId r = caller_id as_bob \<and>
      others_records (caller_id as_bob) s2 = others_records (caller_id as_bob) busy_store"
    by blast
  from a1 have l: "list_all (\<lambda>r. userId r = caller_id as_alice)
     (employee_records (utc sat12) as_alice ''week'' ''Apollo'' busy_store)"
    by (simp add: list_all_iff)
  from h a2 a4 l s2 b3 show ?thesis by simp
qed

text \<open>
  C8. For every non-negative integer \<open>s\<close>, \<open>formatDuration s\<close> is hours and minutes
  (floor division, the seconds dropped) when \<open>s \<ge> 3600\<close>, minutes and seconds when
  \<open>60 \<le> s < 3600\<close>, and the seconds alone when \<open>s < 60\<close>; the unit letters of the output
  give back the bucket of \<open>s\<close>; 3661, 125 and 45 seconds render as
  \<open>1h 1m\<close>, \<open>2m 5s\<close> and \<open>45s\<close>.
\<close>

theorem formatDuration_policy:
  "(0 \<le> s \<longrightarrow>
      formatDuration s =
        (if 3600 \<le> s then show_int (s div 3600) @ ''h '' @ show_int (s mod 3600 div 60) @ ''m''
         else if 60 \<le> s then show_int (s div 60) @ ''m '' @ show_int (s mod 60) @ ''s''
         else show_int s @ ''s'') \<and>
      parse_bucket (formatDuration s) = bucket_of_seconds s) \<and>
   formatDuration 3661 = ''1h 1m'' \<and> formatDuration 125 = ''2m 5s'' \<and>
   formatDuration 45 = ''45s''"
proof -
  have ex: "formatDuration 3661 = ''1h 1m''" "formatDuration 125 = ''2m 5s''"
    "formatDuration 45 = ''45s''"
    by (simp_all add: formatDuration_def js_rem_def show_int_def show_nat.simps digit_char_def)
  have "parse_bucket (formatDuration s) = bucket_of_seconds s" if "0 \<le> s"
    using no_unit_in_show_int
    by (simp add: formatDuration_nonneg [OF that] parse_bucket_def bucket_of_seconds_def)
  with ex formatDuration_nonneg show ?thesis by blast
qed

theorem formatDuration_policy_witness:
  "(0::int) \<le> 7384 \<and> formatDuration 7384 = ''2h 3m'' \<and>
   parse_bucket (formatDuration 7384) = HoursMinutes"
  using formatDuration_policy [of 7384]
  by (auto simp: show_int_def show_nat.simps digit_char_def bucket_of_seconds_def)

text \<open>
  C9. Deleting a user, which an admin does, leaves exactly the records of the other
  users, in their order and unchanged, and leaves every user with another id as it was;
  with the user ids distinct, as the unique index keeps them, no user with the deleted
  id is left.
\<close>

theorem delete_employee_cascade:
  "caller_role a = Admin \<Longrightarrow>
   \<exists>s'. delete_employee a i s = Inr s' \<and>
     records s' = filter (\<lambda>r. userId r \<noteq> i) (records s) \<and>
     (\<forall>r \<in> set (records s'). userId r \<noteq> i) \<and>
     filter (\<lambda>u. user_id u \<noteq> i) (users s') = filter (\<lambda>u. user_id u \<noteq> i) (users s) \<and>
     (distinct (map user_id (users s)) \<longrightarrow>
        users s' = filter (\<lambda>u. user_id u \<noteq> i) (users s))"
  by (simp add: delete_employee_def deleteMany_userId findOneAndDelete_others
      findOneAndDelete_distinct)

text \<open>
  The admin deletes Alice: her three entries go, Bob and his timer stay.
\<close>

theorem delete_employee_cascade_witness:
  "caller_role as_admin = Admin \<and> distinct (map user_id (users busy_store)) \<and>
   map userId (records busy_store) = [''emp_1'', ''emp_1'', ''emp_1'', ''emp_2''] \<and>
   (\<exists>s'. delete_employee as_admin ''emp_1'' busy_store = Inr s' \<and>
      users s' = [admin_user, bob] \<and> records s' = others_records ''emp_1'' busy_store \<and>
      map userId (records s') = [''emp_2''])"
proof -
  have h: "caller_role as_admin = Admin" "distinct (map user_id (users busy_store))"
    "map userId (records busy_store) = [''emp_1'', ''emp_1'', ''emp_1'', ''emp_2'']"
    "filter (\<lambda>u. user_id u \<noteq> ''emp_1'') (users busy_store) = [admin_user, bob]"
    by code_simp+
  from delete_employee_cascade [OF h(1), of "''emp_1''" busy_store] h
  obtain s' where s': "delete_employee as_admin ''emp_1'' busy_store = Inr s'"
    "records s' = filter (\<lambda>r. userId r \<noteq> ''emp_1'') (records busy_store)"
    "users s' = [admin_user, bob]"
    by auto
  have "map userId (filter (\<lambda>r. userId r \<noteq> ''emp_1'') (records busy_store)) = [''emp_2'']"
    by code_simp
  with s' h show ?thesis by (simp add: others_records_def)
qed

text \<open>
  C10. The admin listing is the first 100 of the matching closed records in descending
  order of \<open>startTime\<close>, under every combination of the filters: at most 100 records,
  each a matching record and none more often than it matches, newest first, and every
  matching record that is left out started no later than each record listed. The
  employee listing is all the matching records of the caller in the same order, without
  a cap.
\<close>

theorem listings_order_and_cap:
  "(caller_role a = Admin \<longrightarrow>
      (\<exists>rs. admin_records c a dr e p s = Inr rs \<and>
         rs = take 100 (sort_startTime_desc (find_records (admin_query c dr e p) (records s))) \<and>
         length rs = min 100 (length (find_records (admin_query c dr e p) (records s))) \<and>
         length rs \<le> 100 \<and>
         sorted_wrt (\<lambda>x y. startTime y \<le> startTime x) rs \<and>
         set rs \<subseteq> set (find_records (admin_query c dr e p) (records s)) \<and>
         mset rs \<subseteq># mset (find_records (admin_query c dr e p) (records s)) \<and>
         (\<forall>x \<in># mset (find_records (admin_query c dr e p) (records s)) - mset rs.
            \<forall>y \<in> set rs. startTime x \<le> startTime y))) \<and>
   sorted_wrt (\<lambda>x y. startTime y \<le> startTime x) (employee_records c u dr p s) \<and>
   mset (employee_records c u dr p s) =
     mset (find_records (employee_query c u dr p) (records s))"
proof -
  let ?m = "find_records (admin_query c dr e p) (records s)"
  let ?rs = "take 100 (sort_startTime_desc ?m)"
  have "sorted_wrt (\<lambda>x y. startTime y \<le> startTime x) ?rs"
    by (rule sorted_wrt_take) (rule sorted_sort_startTime_desc)
  moreover have "set ?rs \<subseteq> set ?m"
    using set_take_subset [of 100 "sort_startTime_desc ?m"]
    by (simp add: set_sort_startTime_desc)
  moreover have "mset ?rs \<subseteq># mset ?m"
    by (rule newest_first(1))
  moreover have "\<forall>x \<in># mset ?m - mset ?rs. \<forall>y \<in> set ?rs. startTime x \<le> startTime y"
    by (rule newest_first(2))
  ultimately show ?thesis
    by (simp add: admin_records_def employee_records_def sorted_sort_startTime_desc
        mset_sort_startTime_desc length_sort_startTime_desc min.commute)
qed

text \<open>
  Of 101 matching records, started at the milliseconds 1 to 101, the admin gets the 100
  newest, 101 down to 2, and Alice all 101.
\<close>

theorem listings_order_and_cap_witness:
  "caller_role as_admin = Admin \<and>
   map startTime (find_records (admin_query (utc sat12) [] [] []) (records crowded_store)) =
     [1..101] \<and>
   (\<exists>rs. admin_records (utc sat12) as_admin [] [] [] crowded_store = Inr rs \<and> length rs = 100 \<and>
      map startTime rs = rev [2..101] \<and>
      sorted_wrt (\<lambda>x y. startTime y \<le> startTime x) rs \<and>
      mset rs \<subseteq># mset (find_records (admin_query (utc sat12) [] [] []) (records crowded_store))) \<and>
   length (employee_records (utc sat12) as_alice [] [] crowded_store) = 101 \<and>
   sorted_wrt (\<lambda>x y. startTime y \<le> startTime x)
     (employee_records (utc sat12) as_alice [] [] crowded_store)"
proof -
  have h: "caller_role as_admin = Admin"
    "map startTime (find_records (admin_query (utc sat12) [] [] []) (records crowded_store)) =
       [1..101]"
    "length (find_records (employee_query (utc sat12) as_alice [] []) (records crowded_store)) = 101"
    "map startTime (take 100 (sort_startTime_desc
       (find_records (admin_query (utc sat12) [] [] []) (records crowded_store)))) = rev [2..101]"
    "length (rev [2..101::int]) = 100"
    by code_simp+
  note inst = listings_order_and_cap [of as_admin "utc sat12" "[]" "[]" "[]" crowded_store as_alice]
  from inst h(1) obtain rs where rs:
    "admin_records (utc sat12) as_admin [] [] [] crowded_store = Inr rs"
    "rs = take 100 (sort_startTime_desc
       (find_records (admin_query (utc sat12) [] [] []) (records crowded_store)))"
    "sorted_wrt (\<lambda>x y. startTime y \<le> startTime x) rs"
    "mset rs \<subseteq># mset (find_records (admin_query (utc sat12) [] [] []) (records crowded_store))"
    by blast
  from rs(2) h(4) have m: "map startTime rs = rev [2..101]" by simp
  then have "length (map startTime rs) = 100" using h(5) by simp
  then have l: "length rs = 100" by simp
  from inst have "size (mset (employee_records (utc sat12) as_alice [] [] crowded_store)) =
      size (mset (find_records (employee_query (utc sat12) as_alice [] []) (records crowded_store)))"
    by simp
  then have "length (employee_records (utc sat12) as_alice [] [] crowded_store) = 101"
    using h(3) by simp
  moreover from inst have "sorted_wrt (\<lambda>x y. startTime y \<le> startTime x)
     (employee_records (utc sat12) as_alice [] [] crowded_store)"
    by blast
  ultimately show ?thesis using h(1,2) rs(1,3,4) m l by blast
qed

end
